theory Spec2Isabelle
  imports
    Complex_Main
    "HOL-Library.Char_ord"
    "HOL-Library.List_Lexorder"
    "HOL-Library.Product_Lexorder"
    "HOL-Library.AList"
    "HOL-Library.Log_Nat"
    "HOL-Library.Multiset"
begin

section \<open>Data model\<close>

text \<open>
  \<^verbatim>\<open>main.py\<close> is one pandas script: three tables are loaded, cleaned, grouped and summed,
  left-joined, zero-filled, extended by three computed columns and reduced to reports.
  A table cell is empty (pandas \<^verbatim>\<open>NaN\<close>/\<^verbatim>\<open>NaT\<close>), a number, a text or a timestamp.
  A number is the rational value of the machine number in the cell. Sums are taken
  exactly: that is the result of pandas as long as the cells are whole numbers and
  the sum of their magnitudes is at most \<open>2 ^ 53\<close> (then neither a 64-bit integer sum
  wraps nor a 64-bit float sum rounds), and the statements below that speak of a sum
  are made for such cells. Quotients are rounded as 64-bit floats are.
\<close>

datatype cell = NA | Num rat | Str string | Ts int

text \<open>
  Every table of the script has the four key columns \<^verbatim>\<open>date, state, district, pincode\<close>;
  the other columns are numeric measures, each cell a number or empty (\<open>None\<close>).
  A row carries its measures under their column names, in column order; the frame
  records the measure column names, which an empty table has as well.
\<close>

record row =
  date :: cell
  state :: cell
  district :: cell
  pincode :: cell
  vals :: "(string \<times> rat option) list"

record frame =
  cols :: "string list"
  rows :: "row list"

type_synonym key = "cell \<times> cell \<times> cell \<times> cell"

definition key :: "row \<Rightarrow> key" where
  "key r = (date r, state r, district r, pincode r)"

text \<open>The cell of row \<open>r\<close> in measure column \<open>c\<close>.\<close>

definition val :: "row \<Rightarrow> string \<Rightarrow> rat option" where
  "val r c = (case map_of (vals r) c of None \<Rightarrow> None | Some v \<Rightarrow> v)"

text \<open>A frame is well formed when every row has exactly the frame's measure columns.\<close>

definition wf_frame :: "frame \<Rightarrow> bool" where
  "wf_frame f = list_all (\<lambda>r. map fst (vals r) = cols f) (rows f)"

text \<open>
  What the script can raise on its tables: a column that is not there, the text
  accessor on a column that is no text column, a join of key columns of different
  kinds.
\<close>

datatype error = KeyError string | AttributeError | ValueError

definition and_then :: "error + 'a \<Rightarrow> ('a \<Rightarrow> error + 'b) \<Rightarrow> error + 'b" where
  "and_then m f = (case m of Inl e \<Rightarrow> Inl e | Inr x \<Rightarrow> f x)"

section \<open>Step 2: cleaning\<close>

text \<open>
  \<^verbatim>\<open>df['date'] = pd.to_datetime(df['date'], errors='coerce')\<close>.
  The conversion is pandas' own and works on the column as a whole (it settles on a
  date format for the column): it is a parameter \<open>conv\<close> that gives, for the list of
  the column's cells, a timestamp or nothing for each cell. With \<^verbatim>\<open>errors='coerce'\<close> a
  cell with no timestamp becomes \<^verbatim>\<open>NaT\<close> and nothing is raised; an empty cell stays
  empty.
\<close>

definition coerce :: "cell \<Rightarrow> int option \<Rightarrow> cell" where
  "coerce c t = (case c of NA \<Rightarrow> NA | _ \<Rightarrow> (case t of None \<Rightarrow> NA | Some n \<Rightarrow> Ts n))"

text \<open>One result for each cell: a missing result counts as nothing.\<close>

definition fit :: "nat \<Rightarrow> int option list \<Rightarrow> int option list" where
  "fit n ts = take n (ts @ replicate n None)"

definition to_datetime :: "(cell list \<Rightarrow> int option list) \<Rightarrow> frame \<Rightarrow> frame" where
  "to_datetime conv df =
     df\<lparr>rows := map (\<lambda>(r, t). r\<lparr>date := coerce (date r) t\<rparr>)
                    (zip (rows df) (fit (length (rows df)) (conv (map date (rows df)))))\<rparr>"

text \<open>
  Python's \<^verbatim>\<open>str.strip()\<close> removes the white space characters at both ends. A text is
  the list of its UTF-8 bytes; the white space characters of Python are the ASCII
  ones (9 to 13, 28 to 32) and U+0085, U+00A0, U+1680, U+2000 to U+200A, U+2028,
  U+2029, U+202F, U+205F and U+3000, here with their UTF-8 encodings.
\<close>

definition space_seqs :: "string list" where
  "space_seqs =
     [[CHR 0x09], [CHR 0x0A], [CHR 0x0B], [CHR 0x0C], [CHR 0x0D], [CHR 0x1C],
      [CHR 0x1D], [CHR 0x1E], [CHR 0x1F], [CHR 0x20], [CHR 0xC2, CHR 0x85],
      [CHR 0xC2, CHR 0xA0], [CHR 0xE1, CHR 0x9A, CHR 0x80],
      [CHR 0xE2, CHR 0x80, CHR 0x80], [CHR 0xE2, CHR 0x80, CHR 0x81],
      [CHR 0xE2, CHR 0x80, CHR 0x82], [CHR 0xE2, CHR 0x80, CHR 0x83],
      [CHR 0xE2, CHR 0x80, CHR 0x84], [CHR 0xE2, CHR 0x80, CHR 0x85],
      [CHR 0xE2, CHR 0x80, CHR 0x86], [CHR 0xE2, CHR 0x80, CHR 0x87],
      [CHR 0xE2, CHR 0x80, CHR 0x88], [CHR 0xE2, CHR 0x80, CHR 0x89],
      [CHR 0xE2, CHR 0x80, CHR 0x8A], [CHR 0xE2, CHR 0x80, CHR 0xA8],
      [CHR 0xE2, CHR 0x80, CHR 0xA9], [CHR 0xE2, CHR 0x80, CHR 0xAF],
      [CHR 0xE2, CHR 0x81, CHR 0x9F], [CHR 0xE3, CHR 0x80, CHR 0x80]]"

definition starts :: "string \<Rightarrow> string \<Rightarrow> bool" where
  "starts s w = (w \<noteq> [] \<and> take (length w) s = w)"

function lstrip :: "string list \<Rightarrow> string \<Rightarrow> string" where
  "lstrip ws s =
     (case filter (starts s) ws of [] \<Rightarrow> s | w # _ \<Rightarrow> lstrip ws (drop (length w) s))"
  by pat_completeness auto
termination
proof (relation "measure (\<lambda>(ws, s). length s)")
  show "wf (measure (\<lambda>(ws, s). length s))" by simp
next
  fix ws :: "string list" and s w :: string and rest
  assume "filter (starts s) ws = w # rest"
  then have "w \<in> set (filter (starts s) ws)" by simp
  then have "starts s w" by simp
  then have "w \<noteq> []" and "take (length w) s = w" by (simp_all add: starts_def)
  then have "s \<noteq> []" by auto
  with \<open>w \<noteq> []\<close> show "((ws, drop (length w) s), (ws, s)) \<in> measure (\<lambda>(ws, s). length s)"
    by (cases s; cases w) simp_all
qed

text \<open>
  At the end of a text the encodings are looked for backwards. In well-formed UTF-8 a
  byte sequence that ends the text and is the encoding of a character is that
  character.
\<close>

definition strip :: "string \<Rightarrow> string" where
  "strip s = rev (lstrip (map rev space_seqs) (rev (lstrip space_seqs s)))"

text \<open>
  \<^verbatim>\<open>Series.str.strip()\<close>: a cell that is not text becomes empty. The accessor \<^verbatim>\<open>.str\<close>
  raises \<^verbatim>\<open>AttributeError\<close> on a column that is not a text column, which a column with
  rows and no text cell is.
\<close>

definition is_text :: "cell \<Rightarrow> bool" where
  "is_text c = (case c of Str _ \<Rightarrow> True | _ \<Rightarrow> False)"

definition text_column :: "cell list \<Rightarrow> bool" where
  "text_column cs = (cs = [] \<or> list_ex is_text cs)"

definition str_strip :: "cell \<Rightarrow> cell" where
  "str_strip c = (case c of Str s \<Rightarrow> Str (strip s) | _ \<Rightarrow> NA)"

text \<open>\<^verbatim>\<open>Series.replace(dict)\<close>: a cell equal to a key of the table becomes its value.\<close>

definition replace :: "(string \<times> string) list \<Rightarrow> cell \<Rightarrow> cell" where
  "replace tbl c =
     (case c of Str s \<Rightarrow> (case map_of tbl s of None \<Rightarrow> Str s | Some t \<Rightarrow> Str t)
      | _ \<Rightarrow> c)"

definition district_aliases :: "(string \<times> string) list" where
  "district_aliases =
     [(''Bangalore Urban'', ''Bengaluru''), (''Bengaluru Urban'', ''Bengaluru'')]"

text \<open>The table with its district names cleaned, and \<^verbatim>\<open>clean_district\<close> as it runs.\<close>

definition cleaned :: "frame \<Rightarrow> frame" where
  "cleaned df =
     df\<lparr>rows := map (\<lambda>r. r\<lparr>district := replace district_aliases (str_strip (district r))\<rparr>)
                    (rows df)\<rparr>"

definition clean_district :: "frame \<Rightarrow> error + frame" where
  "clean_district df =
     (if text_column (map district (rows df)) then Inr (cleaned df) else Inl AttributeError)"

section \<open>Step 3: aggregation\<close>

text \<open>
  \<^verbatim>\<open>df.groupby(['date', 'state', 'district', 'pincode'], as_index=False).sum()\<close>
  with the defaults of pandas: \<^verbatim>\<open>dropna=True\<close> leaves out every row with an empty key
  cell, \<^verbatim>\<open>sort=True\<close> orders the groups by key, and \<^verbatim>\<open>sum\<close> skips empty cells
  (a group with no number sums to 0).
\<close>

text \<open>
  The order of the group keys. Cells of one kind are ordered as Python orders them;
  a key column of the schema holds one kind only, and the order between kinds is
  fixed here to have a total order.
\<close>

fun cell_rank :: "cell \<Rightarrow> nat \<times> rat \<times> string" where
  "cell_rank (Num q) = (0, q, [])"
| "cell_rank (Ts t) = (1, of_int t, [])"
| "cell_rank (Str s) = (2, 0, s)"
| "cell_rank NA = (3, 0, [])"

definition key_rank ::
  "key \<Rightarrow> (nat \<times> rat \<times> string) \<times> (nat \<times> rat \<times> string) \<times> (nat \<times> rat \<times> string) \<times> (nat \<times> rat \<times> string)" where
  "key_rank k = (case k of (a, b, c, d) \<Rightarrow> (cell_rank a, cell_rank b, cell_rank c, cell_rank d))"

definition notna_key :: "key \<Rightarrow> bool" where
  "notna_key k = (case k of (a, b, c, d) \<Rightarrow> a \<noteq> NA \<and> b \<noteq> NA \<and> c \<noteq> NA \<and> d \<noteq> NA)"

definition nan0 :: "rat option \<Rightarrow> rat" where
  "nan0 v = (case v of None \<Rightarrow> 0 | Some q \<Rightarrow> q)"

definition col_sum :: "string \<Rightarrow> row list \<Rightarrow> rat" where
  "col_sum c g = sum_list (map (\<lambda>r. nan0 (val r c)) g)"

definition group_row :: "string list \<Rightarrow> row list \<Rightarrow> key \<Rightarrow> row" where
  "group_row cs rs k =
     (case k of (a, b, c, d) \<Rightarrow>
        \<lparr>date = a, state = b, district = c, pincode = d,
         vals = map (\<lambda>n. (n, Some (col_sum n (filter (\<lambda>r. key r = k) rs)))) cs\<rparr>)"

definition groupby_sum :: "frame \<Rightarrow> frame" where
  "groupby_sum df =
     (let kept = filter (\<lambda>r. notna_key (key r)) (rows df);
          ks = sort_key key_rank (remdups (map key kept))
      in \<lparr>cols = cols df, rows = map (group_row (cols df) kept) ks\<rparr>)"

section \<open>Step 4: the master table\<close>

text \<open>
  \<^verbatim>\<open>left.merge(right, on=['date', 'state', 'district', 'pincode'], how='left')\<close>:
  every row of the left table, in the left table's order, once for each row of the
  right table with the same key and once with empty cells when there is none. Equal
  keys match, empty key cells included. A measure column name that both tables use
  gets the suffix \<^verbatim>\<open>_x\<close> on the left and \<^verbatim>\<open>_y\<close> on the right; the tables of the script
  share no measure column name.
\<close>

definition suffixed :: "string list \<Rightarrow> string \<Rightarrow> string \<Rightarrow> string" where
  "suffixed other sfx c = (if c \<in> set other then c @ sfx else c)"

definition relabel :: "(string \<Rightarrow> string) \<Rightarrow> (string \<times> rat option) list \<Rightarrow> (string \<times> rat option) list" where
  "relabel f vs = map (\<lambda>(c, v). (f c, v)) vs"

definition join_row :: "frame \<Rightarrow> frame \<Rightarrow> row \<Rightarrow> row list" where
  "join_row l r a =
     (let lname = suffixed (cols r) ''_x''; rname = suffixed (cols l) ''_y''
      in case filter (\<lambda>b. key b = key a) (rows r) of
           [] \<Rightarrow> [a\<lparr>vals := relabel lname (vals a) @ map (\<lambda>c. (rname c, None)) (cols r)\<rparr>]
         | m # ms \<Rightarrow>
             map (\<lambda>b. a\<lparr>vals := relabel lname (vals a) @ relabel rname (vals b)\<rparr>) (m # ms))"

definition merge_left :: "frame \<Rightarrow> frame \<Rightarrow> frame" where
  "merge_left l r =
     \<lparr>cols = map (suffixed (cols r) ''_x'') (cols l) @ map (suffixed (cols l) ''_y'') (cols r),
      rows = concat (map (join_row l r) (rows l))\<rparr>"

text \<open>
  pandas refuses the join with \<^verbatim>\<open>ValueError\<close> when both tables have rows and a key column
  holds texts in one table and numbers or timestamps in the other, or timestamps in
  one and numbers in the other. The kind of a column is read off its cells; empty
  cells, which an aggregate does not have in a key column, say nothing.
\<close>

definition kind :: "cell list \<Rightarrow> nat" where
  "kind cs =
     (if list_ex is_text cs then 2
      else if list_ex (\<lambda>c. case c of Ts _ \<Rightarrow> True | _ \<Rightarrow> False) cs then 1
      else 0)"

definition same_kinds :: "frame \<Rightarrow> frame \<Rightarrow> bool" where
  "same_kinds l r =
     (rows l = [] \<or> rows r = [] \<or>
      list_all (\<lambda>f. kind (map f (rows l)) = kind (map f (rows r)))
        [date, state, district, pincode])"

definition merge :: "frame \<Rightarrow> frame \<Rightarrow> error + frame" where
  "merge l r = (if same_kinds l r then Inr (merge_left l r) else Inl ValueError)"

text \<open>
  \<^verbatim>\<open>df.fillna(0, inplace=True)\<close>: every empty cell of every column becomes 0 (on a date
  column the outcome depends on the version of pandas; the master table has no empty
  key cell).
\<close>

definition fill_cell :: "cell \<Rightarrow> cell" where
  "fill_cell c = (case c of NA \<Rightarrow> Num 0 | _ \<Rightarrow> c)"

definition fill_row :: "row \<Rightarrow> row" where
  "fill_row r =
     \<lparr>date = fill_cell (date r), state = fill_cell (state r),
      district = fill_cell (district r), pincode = fill_cell (pincode r),
      vals = map (\<lambda>(c, v). (c, Some (nan0 v))) (vals r)\<rparr>"

definition fillna0 :: "frame \<Rightarrow> frame" where
  "fillna0 df = df\<lparr>rows := map fill_row (rows df)\<rparr>"

section \<open>Step 5: the Digital Velocity Index\<close>

text \<open>\<^verbatim>\<open>df[c]\<close> raises \<^verbatim>\<open>KeyError\<close> when the table has no column \<open>c\<close>.\<close>

definition column :: "frame \<Rightarrow> string \<Rightarrow> error + (row \<Rightarrow> rat option)" where
  "column df c = (if c \<in> set (cols df) then Inr (\<lambda>r. val r c) else Inl (KeyError c))"

text \<open>\<^verbatim>\<open>df[c] = s\<close> overwrites the column \<open>c\<close> in place, or appends it as the last column.\<close>

definition set_col :: "frame \<Rightarrow> string \<Rightarrow> (row \<Rightarrow> rat option) \<Rightarrow> frame" where
  "set_col df c s =
     \<lparr>cols = (if c \<in> set (cols df) then cols df else cols df @ [c]),
      rows = map (\<lambda>r. r\<lparr>vals := AList.update c (s r) (vals r)\<rparr>) (rows df)\<rparr>"

text \<open>
  The rounding of 64-bit floats: to the nearest number with 53 binary digits, a tie
  to the even one. \<open>ilog2 x\<close> is the binary exponent of a positive \<open>x\<close>. Overflow and
  the subnormal numbers, beyond \<open>2 ^ 1023\<close> and below \<open>2 ^ - 1022\<close>, are left out.
\<close>

definition ilog2 :: "rat \<Rightarrow> int" where
  "ilog2 x =
     (case quotient_of x of (p, q) \<Rightarrow>
        let e = bitlen p - bitlen q in if 2 powi e \<le> x then e else e - 1)"

definition rne :: "rat \<Rightarrow> int" where
  "rne x =
     (let f = \<lfloor>x\<rfloor>; d = x - of_int f
      in if d < 1 / 2 then f else if 1 / 2 < d then f + 1 else if even f then f else f + 1)"

definition fl64 :: "rat \<Rightarrow> rat" where
  "fl64 x =
     (if x = 0 then 0
      else let u = 2 powi (ilog2 \<bar>x\<bar> - 52) in of_int (rne (x / u)) * u)"

text \<open>
  Arithmetic on cells: an empty operand gives an empty result. The division is that of
  64-bit floats. A division by zero raises nothing in pandas; its result (\<^verbatim>\<open>inf\<close>,
  \<^verbatim>\<open>-inf\<close> or \<^verbatim>\<open>NaN\<close>) is no number and is kept as the empty cell.
\<close>

definition add_na :: "rat option \<Rightarrow> rat option \<Rightarrow> rat option" where
  "add_na x y = (case (x, y) of (Some a, Some b) \<Rightarrow> Some (a + b) | _ \<Rightarrow> None)"

definition div_na :: "rat option \<Rightarrow> rat option \<Rightarrow> rat option" where
  "div_na x y =
     (case (x, y) of (Some a, Some b) \<Rightarrow> (if b = 0 then None else Some (fl64 (a / b)))
      | _ \<Rightarrow> None)"

definition index_engine :: "frame \<Rightarrow> error + frame" where
  "index_engine df =
     and_then (column df ''age_0_5'') (\<lambda>a.
     and_then (column df ''age_5_17'') (\<lambda>b.
     let df1 = set_col df ''enrolment_pressure'' (\<lambda>r. add_na (a r) (b r)) in
     and_then (column df1 ''demo_age_5_17'') (\<lambda>d1.
     and_then (column df1 ''demo_age_17_'') (\<lambda>d2.
     and_then (column df1 ''bio_age_5_17'') (\<lambda>b1.
     and_then (column df1 ''bio_age_17_'') (\<lambda>b2.
     let df2 = set_col df1 ''total_updates''
                 (\<lambda>r. add_na (add_na (add_na (d1 r) (d2 r)) (b1 r)) (b2 r)) in
     and_then (column df2 ''total_updates'') (\<lambda>tu.
     and_then (column df2 ''enrolment_pressure'') (\<lambda>ep.
     and_then (column df2 ''total_updates'') (\<lambda>tu'.
     Inr (set_col df2 ''DVI''
            (\<lambda>r. div_na (tu r) (add_na (add_na (ep r) (tu' r)) (Some 1)))))))))))))"

section \<open>Step 6: identity deserts\<close>

text \<open>
  \<^verbatim>\<open>df[df['DVI'] < 0.1].groupby('district')['DVI'].mean().sort_values().head(10)\<close>.
  \<^verbatim>\<open>0.1\<close> is the float nearest to one tenth. A comparison with an empty cell is false
  (of the results of a division by zero, which are kept as empty cells, pandas would
  let \<^verbatim>\<open>-inf\<close> pass; it needs a negative \<^verbatim>\<open>total_updates\<close>). The grouping has the defaults
  of pandas again: it leaves out rows with an empty district and orders the groups by
  district. The mean of a group of floats and the sort are pandas' own and are
  parameters: \<open>avg\<close> is given the values of a group, of which there is at least one, in
  the order of the rows; \<open>srt\<close> is given the districts with their means in the order
  of the grouping. The default sort of pandas is not a stable one.
\<close>

definition lt_na :: "rat option \<Rightarrow> rat \<Rightarrow> bool" where
  "lt_na v t = (case v of None \<Rightarrow> False | Some q \<Rightarrow> q < t)"

definition deserts_with ::
  "(rat list \<Rightarrow> rat) \<Rightarrow> ((cell \<times> rat) list \<Rightarrow> (cell \<times> rat) list) \<Rightarrow> row list
     \<Rightarrow> (cell \<times> rat) list" where
  "deserts_with avg srt rs =
     (let low = filter (\<lambda>r. lt_na (val r ''DVI'') (fl64 (1 / 10))) rs;
          grp = filter (\<lambda>r. district r \<noteq> NA) low;
          ds = sort_key cell_rank (remdups (map district grp));
          means = map (\<lambda>d. (d, avg (map (\<lambda>r. nan0 (val r ''DVI''))
                                     (filter (\<lambda>r. district r = d) grp)))) ds
      in take 10 (srt means))"

definition identity_deserts_with ::
  "(rat list \<Rightarrow> rat) \<Rightarrow> ((cell \<times> rat) list \<Rightarrow> (cell \<times> rat) list) \<Rightarrow> frame
     \<Rightarrow> error + (cell \<times> rat) list" where
  "identity_deserts_with avg srt df =
     (if ''DVI'' \<in> set (cols df) then Inr (deserts_with avg srt (rows df))
      else Inl (KeyError ''DVI''))"

text \<open>
  For the examples: the exact mean, which is the mean of pandas for a group of one
  row, and the sort by insertion, which keeps entries of equal mean in their order.
\<close>

definition mean :: "rat list \<Rightarrow> rat" where
  "mean xs = sum_list xs / of_nat (length xs)"

definition deserts_of :: "row list \<Rightarrow> (cell \<times> rat) list" where
  "deserts_of rs = deserts_with mean (sort_key snd) rs"

definition identity_deserts :: "frame \<Rightarrow> error + (cell \<times> rat) list" where
  "identity_deserts df = identity_deserts_with mean (sort_key snd) df"

section \<open>Steps 7 to 9: case studies and heat map\<close>

text \<open>
  \<^verbatim>\<open>df[df['district'].str.contains(name, case=False, na=False)]\<close>, grouped by the month
  of the date, with the sums of some columns. Whether a district text contains the
  name whatever the case of its letters is pandas' own, a parameter \<open>hit\<close>; a cell that
  is no text does not. The month of a timestamp is a parameter \<open>period\<close>.
\<close>

definition monthly ::
  "(int \<Rightarrow> int) \<Rightarrow> (string \<Rightarrow> bool) \<Rightarrow> string list \<Rightarrow> frame \<Rightarrow> error + (int \<times> rat list) list" where
  "monthly period hit cs df =
     (case filter (\<lambda>c. c \<notin> set (cols df)) cs of
        c # _ \<Rightarrow> Inl (KeyError c)
      | [] \<Rightarrow>
          let sel = filter (\<lambda>r. case district r of Str s \<Rightarrow> hit s | _ \<Rightarrow> False) (rows df);
              dated = concat (map (\<lambda>r. case date r of Ts t \<Rightarrow> [(period t, r)] | _ \<Rightarrow> []) sel);
              ps = sort (remdups (map fst dated))
          in Inr (map (\<lambda>p. (p, map (\<lambda>c. col_sum c (map snd (filter (\<lambda>d. fst d = p) dated))) cs))
                   ps))"

text \<open>\<^verbatim>\<open>df.groupby('pincode')['DVI'].mean().reset_index()\<close>: the mean skips empty cells.\<close>

definition heatmap :: "(rat list \<Rightarrow> rat) \<Rightarrow> frame \<Rightarrow> error + (cell \<times> rat option) list" where
  "heatmap avg df =
     (if ''DVI'' \<notin> set (cols df) then Inl (KeyError ''DVI'')
      else
        let grp = filter (\<lambda>r. pincode r \<noteq> NA) (rows df);
            ps = sort_key cell_rank (remdups (map pincode grp))
        in Inr (map (\<lambda>p. (p, case concat (map (\<lambda>r. case val r ''DVI'' of None \<Rightarrow> [] | Some q \<Rightarrow> [q])
                                            (filter (\<lambda>r. pincode r = p) grp)) of
                                   [] \<Rightarrow> None
                                 | q # qs \<Rightarrow> Some (avg (q # qs)))) ps))"

section \<open>The script\<close>

text \<open>
  The tables as they are when nothing is raised: cleaned, aggregated, joined and
  zero-filled.
\<close>

definition prepare :: "(cell list \<Rightarrow> int option list) \<Rightarrow> frame \<Rightarrow> frame" where
  "prepare conv df = cleaned (to_datetime conv df)"

definition master ::
  "(cell list \<Rightarrow> int option list) \<Rightarrow> frame \<Rightarrow> frame \<Rightarrow> frame \<Rightarrow> frame" where
  "master conv df_enrol df_demo df_bio =
     (let enrol_agg = groupby_sum (prepare conv df_enrol);
          demo_agg = groupby_sum (prepare conv df_demo);
          bio_agg = groupby_sum (prepare conv df_bio)
      in fillna0 (merge_left (merge_left enrol_agg demo_agg) bio_agg))"

text \<open>Steps 2 to 6 as they run, in the order of the script.\<close>

definition core ::
  "(cell list \<Rightarrow> int option list) \<Rightarrow> (rat list \<Rightarrow> rat) \<Rightarrow>
   ((cell \<times> rat) list \<Rightarrow> (cell \<times> rat) list) \<Rightarrow> frame \<Rightarrow> frame \<Rightarrow> frame
     \<Rightarrow> error + frame \<times> (cell \<times> rat) list" where
  "core conv avg srt df_enrol df_demo df_bio =
     and_then (clean_district (to_datetime conv df_enrol)) (\<lambda>e.
     and_then (clean_district (to_datetime conv df_demo)) (\<lambda>d.
     and_then (clean_district (to_datetime conv df_bio)) (\<lambda>b.
     and_then (merge (groupby_sum e) (groupby_sum d)) (\<lambda>m.
     and_then (merge m (groupby_sum b)) (\<lambda>m'.
     and_then (index_engine (fillna0 m')) (\<lambda>df.
     and_then (identity_deserts_with avg srt df) (\<lambda>deserts. Inr (df, deserts))))))))"

definition pipeline ::
  "(cell list \<Rightarrow> int option list) \<Rightarrow> frame \<Rightarrow> frame \<Rightarrow> frame
     \<Rightarrow> error + frame \<times> (cell \<times> rat) list" where
  "pipeline conv df_enrol df_demo df_bio = core conv mean (sort_key snd) df_enrol df_demo df_bio"

text \<open>What pandas does by its own rules, and the whole script with its five results.\<close>

record library =
  dates :: "cell list \<Rightarrow> int option list"
  group_mean :: "rat list \<Rightarrow> rat"
  value_sort :: "(cell \<times> rat) list \<Rightarrow> (cell \<times> rat) list"
  month :: "int \<Rightarrow> int"
  has_name :: "string \<Rightarrow> string \<Rightarrow> bool"

record reports =
  out_table :: frame
  out_deserts :: "(cell \<times> rat) list"
  out_sitamarhi :: "(int \<times> rat list) list"
  out_bengaluru :: "(int \<times> rat list) list"
  out_heatmap :: "(cell \<times> rat option) list"

definition script :: "library \<Rightarrow> frame \<Rightarrow> frame \<Rightarrow> frame \<Rightarrow> error + reports" where
  "script lib df_enrol df_demo df_bio =
     and_then (core (dates lib) (group_mean lib) (value_sort lib) df_enrol df_demo df_bio) (\<lambda>(df, ds).
     and_then (monthly (month lib) (has_name lib ''Sitamarhi'') [''age_0_5'', ''bio_age_5_17''] df)
       (\<lambda>sitamarhi.
     and_then (monthly (month lib) (has_name lib ''Bengaluru'') [''demo_age_17_''] df)
       (\<lambda>bengaluru.
     and_then (heatmap (group_mean lib) df) (\<lambda>heat.
     Inr \<lparr>out_table = df, out_deserts = ds, out_sitamarhi = sitamarhi,
          out_bengaluru = bengaluru, out_heatmap = heat\<rparr>))))"

section \<open>Example tables\<close>

text \<open>
  The first instants of January and of February 2024, in nanoseconds since 1970 as
  pandas stores them.
\<close>

definition jan_2024 :: int where
  "jan_2024 = 1704067200000000000"

definition feb_2024 :: int where
  "feb_2024 = 1706745600000000000"

text \<open>Two enrolment records of one key, with 3 and 7 enrolments of age 0 to 5.\<close>

definition two_records :: frame where
  "two_records =
     \<lparr>cols = [''age_0_5'', ''age_5_17''],
      rows =
        [\<lparr>date = Ts jan_2024, state = Str ''KA'', district = Str ''Bengaluru'',
          pincode = Num 560001, vals = [(''age_0_5'', Some 3), (''age_5_17'', Some 1)]\<rparr>,
         \<lparr>date = Ts jan_2024, state = Str ''KA'', district = Str ''Bengaluru'',
          pincode = Num 560001, vals = [(''age_0_5'', Some 7), (''age_5_17'', Some 2)]\<rparr>]\<rparr>"

text \<open>One enrolment record whose date is empty, as a date text that did not parse is.\<close>

definition undated_record :: frame where
  "undated_record =
     \<lparr>cols = [''age_0_5'', ''age_5_17''],
      rows =
        [\<lparr>date = NA, state = Str ''KA'', district = Str ''Mysuru'',
          pincode = Num 570001, vals = [(''age_0_5'', Some 4), (''age_5_17'', Some 6)]\<rparr>]\<rparr>"

text \<open>
  Two records of different keys, the later date first, one with an empty measure cell.
\<close>

definition unsorted_records :: frame where
  "unsorted_records =
     \<lparr>cols = [''age_0_5'', ''age_5_17''],
      rows =
        [\<lparr>date = Ts feb_2024, state = Str ''KA'', district = Str ''Bengaluru'',
          pincode = Num 560001, vals = [(''age_0_5'', Some 3), (''age_5_17'', Some 1)]\<rparr>,
         \<lparr>date = Ts jan_2024, state = Str ''KA'', district = Str ''Bengaluru'',
          pincode = Num 560001, vals = [(''age_0_5'', Some 7), (''age_5_17'', None)]\<rparr>]\<rparr>"

text \<open>A date conversion that knows two date texts, for the examples.\<close>

definition parse_month :: "cell list \<Rightarrow> int option list" where
  "parse_month cs =
     map (\<lambda>c. if c = Str ''2024-01'' then Some jan_2024
              else if c = Str ''2024-02'' then Some feb_2024
              else None) cs"

text \<open>
  One raw enrolment record, and update tables that have their columns and no record.
\<close>

definition enrol_A :: frame where
  "enrol_A =
     \<lparr>cols = [''age_0_5'', ''age_5_17''],
      rows =
        [\<lparr>date = Str ''2024-01'', state = Str ''KA'', district = Str ''Bengaluru Urban'',
          pincode = Num 560001, vals = [(''age_0_5'', Some 10), (''age_5_17'', Some 5)]\<rparr>]\<rparr>"

definition demo_none :: frame where
  "demo_none = \<lparr>cols = [''demo_age_5_17'', ''demo_age_17_''], rows = []\<rparr>"

definition bio_none :: frame where
  "bio_none = \<lparr>cols = [''bio_age_5_17'', ''bio_age_17_''], rows = []\<rparr>"

text \<open>A demographic record of another key.\<close>

definition demo_other :: frame where
  "demo_other =
     \<lparr>cols = [''demo_age_5_17'', ''demo_age_17_''],
      rows =
        [\<lparr>date = Str ''2024-01'', state = Str ''KA'', district = Str ''Mysuru'',
          pincode = Num 570001, vals = [(''demo_age_5_17'', Some 2), (''demo_age_17_'', Some 8)]\<rparr>]\<rparr>"

text \<open>An enrolment row with an empty date and an empty measure cell.\<close>

definition enrol_gaps :: frame where
  "enrol_gaps =
     \<lparr>cols = [''age_0_5'', ''age_5_17''],
      rows =
        [\<lparr>date = NA, state = Str ''KA'', district = Str ''Mysuru'',
          pincode = Num 570001, vals = [(''age_0_5'', None), (''age_5_17'', Some 5)]\<rparr>]\<rparr>"

text \<open>
  A demographic and a biometric record of the key of the enrolment record: 90 updates
  in \<^verbatim>\<open>demo_age_17_\<close>, 5 in \<^verbatim>\<open>bio_age_5_17\<close>.
\<close>

definition demo_B :: frame where
  "demo_B =
     \<lparr>cols = [''demo_age_5_17'', ''demo_age_17_''],
      rows =
        [\<lparr>date = Str ''2024-01'', state = Str ''KA'', district = Str ''Bengaluru Urban'',
          pincode = Num 560001, vals = [(''demo_age_5_17'', Some 0), (''demo_age_17_'', Some 90)]\<rparr>]\<rparr>"

definition bio_B :: frame where
  "bio_B =
     \<lparr>cols = [''bio_age_5_17'', ''bio_age_17_''],
      rows =
        [\<lparr>date = Str ''2024-01'', state = Str ''KA'', district = Str ''Bengaluru Urban'',
          pincode = Num 560001, vals = [(''bio_age_5_17'', Some 5), (''bio_age_17_'', Some 0)]\<rparr>]\<rparr>"

text \<open>
  Two raw records: an alias spelling with a no-break space and a blank before it and
  an em space and a line feed after it, and an unlisted name.
\<close>

definition spaced_names :: frame where
  "spaced_names =
     \<lparr>cols = [''age_0_5'', ''age_5_17''],
      rows =
        [\<lparr>date = Str ''2024-01'', state = Str ''KA'',
          district = Str ([CHR 0xC2, CHR 0xA0] @ '' Bangalore Urban'' @
                          [CHR 0xE2, CHR 0x80, CHR 0x83, CHR 0x0A]),
          pincode = Num 560001, vals = [(''age_0_5'', Some 1), (''age_5_17'', Some 2)]\<rparr>,
         \<lparr>date = Str ''2024-01'', state = Str ''KA'', district = Str ''Mysuru'',
          pincode = Num 570001, vals = [(''age_0_5'', Some 3), (''age_5_17'', Some 4)]\<rparr>]\<rparr>"

text \<open>One raw enrolment record whose date text is no date.\<close>

definition bad_date :: frame where
  "bad_date =
     \<lparr>cols = [''age_0_5'', ''age_5_17''],
      rows =
        [\<lparr>date = Str ''31/31/2024'', state = Str ''KA'', district = Str ''Mysuru'',
          pincode = Num 570001, vals = [(''age_0_5'', Some 4), (''age_5_17'', Some 6)]\<rparr>]\<rparr>"

text \<open>
  Two raw enrolment records of two districts, the district that is later in the
  alphabet in the earlier month, so that it comes first in the master table.
\<close>

definition two_districts :: frame where
  "two_districts =
     \<lparr>cols = [''age_0_5'', ''age_5_17''],
      rows =
        [\<lparr>date = Str ''2024-01'', state = Str ''KA'', district = Str ''Mysuru'',
          pincode = Num 570001, vals = [(''age_0_5'', Some 4), (''age_5_17'', Some 6)]\<rparr>,
         \<lparr>date = Str ''2024-02'', state = Str ''KA'', district = Str ''Bengaluru Urban'',
          pincode = Num 560001, vals = [(''age_0_5'', Some 10), (''age_5_17'', Some 5)]\<rparr>]\<rparr>"

text \<open>
  The cells for which a sum of pandas is the exact sum: whole numbers whose magnitudes
  sum to at most \<open>2 ^ 53\<close>.
\<close>

definition whole_counts :: "rat list \<Rightarrow> bool" where
  "whole_counts vs = (list_all (\<lambda>v. of_int \<lfloor>v\<rfloor> = v) vs \<and> sum_list (map abs vs) \<le> 2 ^ 53)"

text \<open>Two records of different keys, the later date first, no cell empty.\<close>

definition shuffled_records :: frame where
  "shuffled_records =
     \<lparr>cols = [''age_0_5'', ''age_5_17''],
      rows =
        [\<lparr>date = Ts feb_2024, state = Str ''KA'', district = Str ''Bengaluru'',
          pincode = Num 560001, vals = [(''age_0_5'', Some 3), (''age_5_17'', Some 1)]\<rparr>,
         \<lparr>date = Ts jan_2024, state = Str ''KA'', district = Str ''Bengaluru'',
          pincode = Num 560001, vals = [(''age_0_5'', Some 7), (''age_5_17'', Some 2)]\<rparr>]\<rparr>"

text \<open>
  A biometric record of the key that the second of the two districts has after
  cleaning, and a demographic record whose pincode is a text.
\<close>

definition bio_feb :: frame where
  "bio_feb =
     \<lparr>cols = [''bio_age_5_17'', ''bio_age_17_''],
      rows =
        [\<lparr>date = Str ''2024-02'', state = Str ''KA'', district = Str ''Bengaluru'',
          pincode = Num 560001, vals = [(''bio_age_5_17'', Some 1), (''bio_age_17_'', Some 2)]\<rparr>]\<rparr>"

definition demo_text_pincode :: frame where
  "demo_text_pincode =
     \<lparr>cols = [''demo_age_5_17'', ''demo_age_17_''],
      rows =
        [\<lparr>date = Str ''2024-01'', state = Str ''KA'', district = Str ''Bengaluru Urban'',
          pincode = Str ''560001'',
          vals = [(''demo_age_5_17'', Some 0), (''demo_age_17_'', Some 90)]\<rparr>]\<rparr>"

text \<open>
  An enrolment record with no enrolment and a demographic record of its key with
  \<open>10 ^ 17\<close> updates.
\<close>

definition enrol_zero :: frame where
  "enrol_zero =
     \<lparr>cols = [''age_0_5'', ''age_5_17''],
      rows =
        [\<lparr>date = Str ''2024-01'', state = Str ''KA'', district = Str ''Bengaluru Urban'',
          pincode = Num 560001, vals = [(''age_0_5'', Some 0), (''age_5_17'', Some 0)]\<rparr>]\<rparr>"

definition demo_huge :: frame where
  "demo_huge =
     \<lparr>cols = [''demo_age_5_17'', ''demo_age_17_''],
      rows =
        [\<lparr>date = Str ''2024-01'', state = Str ''KA'', district = Str ''Bengaluru Urban'',
          pincode = Num 560001,
          vals = [(''demo_age_5_17'', Some 0), (''demo_age_17_'', Some (10 ^ 17))]\<rparr>]\<rparr>"

text \<open>
  Enrolment records of four keys in three districts and demographic records of three
  of the keys: \<^verbatim>\<open>DVI\<close> is 1/16 and 1/32 in the two pincodes of \<^verbatim>\<open>Mysuru\<close>, 8/10 in \<^verbatim>\<open>Tumakuru\<close>
  and 0 in \<^verbatim>\<open>Bengaluru\<close>, whose record is the last of the master table.
\<close>

definition four_keys :: frame where
  "four_keys =
     \<lparr>cols = [''age_0_5'', ''age_5_17''],
      rows =
        [\<lparr>date = Str ''2024-01'', state = Str ''KA'', district = Str ''Mysuru'',
          pincode = Num 570001, vals = [(''age_0_5'', Some 4), (''age_5_17'', Some 10)]\<rparr>,
         \<lparr>date = Str ''2024-01'', state = Str ''KA'', district = Str ''Mysuru'',
          pincode = Num 570002, vals = [(''age_0_5'', Some 15), (''age_5_17'', Some 15)]\<rparr>,
         \<lparr>date = Str ''2024-01'', state = Str ''KA'', district = Str ''Tumakuru'',
          pincode = Num 572101, vals = [(''age_0_5'', Some 1), (''age_5_17'', Some 0)]\<rparr>,
         \<lparr>date = Str ''2024-02'', state = Str ''KA'', district = Str ''Bengaluru Urban'',
          pincode = Num 560001, vals = [(''age_0_5'', Some 10), (''age_5_17'', Some 5)]\<rparr>]\<rparr>"

definition demo_three :: frame where
  "demo_three =
     \<lparr>cols = [''demo_age_5_17'', ''demo_age_17_''],
      rows =
        [\<lparr>date = Str ''2024-01'', state = Str ''KA'', district = Str ''Mysuru'',
          pincode = Num 570001, vals = [(''demo_age_5_17'', Some 0), (''demo_age_17_'', Some 1)]\<rparr>,
         \<lparr>date = Str ''2024-01'', state = Str ''KA'', district = Str ''Mysuru'',
          pincode = Num 570002, vals = [(''demo_age_5_17'', Some 1), (''demo_age_17_'', Some 0)]\<rparr>,
         \<lparr>date = Str ''2024-01'', state = Str ''KA'', district = Str ''Tumakuru'',
          pincode = Num 572101, vals = [(''demo_age_5_17'', Some 2), (''demo_age_17_'', Some 6)]\<rparr>]\<rparr>"

section \<open>Properties of the aggregation\<close>

lemma key_group_row: "key (group_row cs rs k) = k"
  by (cases k) (simp add: group_row_def key_def)

lemma vals_group_row:
  "vals (group_row cs rs k) = map (\<lambda>n. (n, Some (col_sum n (filter (\<lambda>r. key r = k) rs)))) cs"
  by (cases k) (simp add: group_row_def)

lemma val_group_row:
  "c \<in> set cs \<Longrightarrow> val (group_row cs rs k) c = Some (col_sum c (filter (\<lambda>r. key r = k) rs))"
  by (simp add: val_def vals_group_row map_of_map_restrict)

lemma cols_groupby_sum: "cols (groupby_sum df) = cols df"
  by (simp add: groupby_sum_def Let_def)

lemma rows_groupby_sum:
  "rows (groupby_sum df) =
     map (group_row (cols df) (filter (\<lambda>r. notna_key (key r)) (rows df)))
       (sort_key key_rank (remdups (map key (filter (\<lambda>r. notna_key (key r)) (rows df)))))"
  by (simp add: groupby_sum_def Let_def)

lemma keys_groupby_sum:
  "map key (rows (groupby_sum df)) =
     sort_key key_rank (remdups (map key (filter (\<lambda>r. notna_key (key r)) (rows df))))"
  by (simp add: rows_groupby_sum key_group_row comp_def)

lemma distinct_keys_groupby_sum: "distinct (map key (rows (groupby_sum df)))"
  by (simp add: keys_groupby_sum)

lemma set_keys_groupby_sum:
  "set (map key (rows (groupby_sum df))) = {k \<in> key ` set (rows df). notna_key k}"
  by (auto simp add: keys_groupby_sum)

lemma filter_key_kept:
  "notna_key k \<Longrightarrow>
     filter (\<lambda>r. notna_key (key r) \<and> key r = k) rs = filter (\<lambda>r. key r = k) rs"
  by (rule filter_cong) auto

lemma val_groupby_sum:
  assumes "out \<in> set (rows (groupby_sum df))" and "c \<in> set (cols df)"
  shows "val out c = Some (col_sum c (filter (\<lambda>r. key r = key out) (rows df)))"
proof -
  let ?kept = "filter (\<lambda>r. notna_key (key r)) (rows df)"
  from assms(1) have "out \<in> group_row (cols df) ?kept ` set (map key ?kept)"
    by (simp add: rows_groupby_sum)
  then obtain k where k: "k \<in> set (map key ?kept)" and out: "out = group_row (cols df) ?kept k"
    by blast
  from k have "notna_key k" by auto
  then show ?thesis
    using assms(2) by (simp add: out val_group_row key_group_row filter_key_kept)
qed

lemma wf_groupby_sum: "wf_frame (groupby_sum df)"
  by (simp add: wf_frame_def list_all_iff rows_groupby_sum cols_groupby_sum vals_group_row comp_def)

lemma notna_groupby_sum: "r \<in> set (rows (groupby_sum df)) \<Longrightarrow> notna_key (key r)"
  using set_keys_groupby_sum[of df] by auto


lemma rows_two_records:
  "rows (groupby_sum two_records) =
     [\<lparr>date = Ts jan_2024, state = Str ''KA'', district = Str ''Bengaluru'',
       pincode = Num 560001, vals = [(''age_0_5'', Some 10), (''age_5_17'', Some 3)]\<rparr>]"
  by (simp add: groupby_sum_def two_records_def Let_def key_def notna_key_def
      group_row_def col_sum_def val_def nan0_def)

section \<open>Properties of the float rounding\<close>

lemma rne_bounds: "of_int (rne x) \<le> x + 1 / 2" "x - 1 / 2 \<le> of_int (rne x)"
proof -
  have f: "of_int \<lfloor>x\<rfloor> \<le> x" "x < of_int \<lfloor>x\<rfloor> + 1" by linarith+
  show "of_int (rne x) \<le> x + 1 / 2"
    unfolding rne_def Let_def using f by (simp split: if_splits) linarith
  show "x - 1 / 2 \<le> of_int (rne x)"
    unfolding rne_def Let_def using f by (simp split: if_splits)
qed

lemma rne_le: "x \<le> of_int m \<Longrightarrow> rne x \<le> m"
proof -
  assume "x \<le> of_int m"
  then have "\<lfloor>x\<rfloor> \<le> m" by (simp add: floor_le_iff)
  moreover have "\<lfloor>x\<rfloor> = m \<Longrightarrow> x = of_int m"
    using \<open>x \<le> of_int m\<close> by (metis of_int_floor_le order_antisym)
  ultimately show ?thesis
    by (cases "\<lfloor>x\<rfloor> = m") (auto simp add: rne_def Let_def)
qed

lemma rne_ge: "of_int m \<le> x \<Longrightarrow> m \<le> rne x"
proof -
  assume "of_int m \<le> x"
  then have "m \<le> \<lfloor>x\<rfloor>" by (simp add: le_floor_iff)
  then show ?thesis by (auto simp add: rne_def Let_def)
qed

lemma ilog2_bounds:
  assumes "0 < x"
  shows "2 powi (ilog2 x) \<le> x" and "x < 2 powi (ilog2 x + 1)"
proof -
  obtain p q where pq: "quotient_of x = (p, q)" by (cases "quotient_of x")
  then have q: "0 < q" and x: "x = of_int p / of_int q"
    by (simp_all add: quotient_of_denom_pos quotient_of_div)
  with assms have p: "0 < p" by (simp add: zero_less_divide_iff)
  let ?e = "bitlen p - bitlen q"
  have bp: "2 ^ nat (bitlen p - 1) \<le> p" "p < 2 ^ nat (bitlen p)"
    and bq: "2 ^ nat (bitlen q - 1) \<le> q" "q < 2 ^ nat (bitlen q)"
    using bitlen_bounds[OF p] bitlen_bounds[OF q] by simp_all
  have lp: "1 \<le> bitlen p" and lq: "1 \<le> bitlen q"
    using p q by (simp_all add: bitlen_def floorlog_def)
  have rp: "(2::rat) powi (bitlen p - 1) \<le> of_int p" "of_int p < (2::rat) powi (bitlen p)"
  proof -
    have "(of_int (2 ^ nat (bitlen p - 1)) :: rat) \<le> of_int p" using bp(1) by (simp only: of_int_le_iff)
    then show "(2::rat) powi (bitlen p - 1) \<le> of_int p" using lp by (simp add: power_int_def)
    have "(of_int p :: rat) < of_int (2 ^ nat (bitlen p))" using bp(2) by (simp only: of_int_less_iff)
    then show "of_int p < (2::rat) powi (bitlen p)" using lp by (simp add: power_int_def)
  qed
  have rq: "(2::rat) powi (bitlen q - 1) \<le> of_int q" "of_int q < (2::rat) powi (bitlen q)"
  proof -
    have "(of_int (2 ^ nat (bitlen q - 1)) :: rat) \<le> of_int q" using bq(1) by (simp only: of_int_le_iff)
    then show "(2::rat) powi (bitlen q - 1) \<le> of_int q" using lq by (simp add: power_int_def)
    have "(of_int q :: rat) < of_int (2 ^ nat (bitlen q))" using bq(2) by (simp only: of_int_less_iff)
    then show "of_int q < (2::rat) powi (bitlen q)" using lq by (simp add: power_int_def)
  qed
  have qpos: "(0::rat) < of_int q" using q by simp
  have lo: "2 powi (?e - 1) \<le> x"
  proof -
    have "(2::rat) powi (?e - 1) * of_int q \<le> 2 powi (?e - 1) * 2 powi (bitlen q)"
      using rq(2) by (intro mult_left_mono) simp_all
    also have "\<dots> = 2 powi (bitlen p - 1)"
      by (simp add: power_int_add[symmetric])
    also have "\<dots> \<le> of_int p" by (rule rp(1))
    finally show ?thesis using qpos by (simp add: x pos_le_divide_eq)
  qed
  have hi: "x < 2 powi (?e + 1)"
  proof -
    have "of_int p < (2::rat) powi (bitlen p)" by (rule rp(2))
    also have "\<dots> = 2 powi (?e + 1) * 2 powi (bitlen q - 1)"
      by (simp add: power_int_add[symmetric])
    also have "\<dots> \<le> 2 powi (?e + 1) * of_int q"
      using rq(1) by (intro mult_left_mono) simp_all
    finally show ?thesis using qpos by (simp add: x pos_divide_less_eq)
  qed
  have il: "ilog2 x = (if 2 powi ?e \<le> x then ?e else ?e - 1)"
    by (simp add: ilog2_def pq Let_def)
  show "2 powi (ilog2 x) \<le> x" using lo by (simp add: il)
  show "x < 2 powi (ilog2 x + 1)" using hi by (auto simp add: il not_le)
qed


lemma powi_52: "(2::rat) powi e = 2 ^ 52 * 2 powi (e - 52)"
proof -
  have "(2::rat) powi (52 + (e - 52)) = 2 powi 52 * 2 powi (e - 52)"
    by (rule power_int_add) simp
  moreover have "(2::rat) powi 52 = 2 ^ 52" by (simp add: power_int_def)
  moreover have "52 + (e - 52) = e" by simp
  ultimately show ?thesis by (simp only:)
qed

lemma powi_53: "(2::rat) powi (e + 1) = 2 ^ 53 * 2 powi (e - 52)"
proof -
  have "(2::rat) powi (53 + (e - 52)) = 2 powi 53 * 2 powi (e - 52)"
    by (rule power_int_add) simp
  moreover have "(2::rat) powi 53 = 2 ^ 53" by (simp add: power_int_def)
  moreover have "53 + (e - 52) = e + 1" by simp
  ultimately show ?thesis by (simp only:)
qed

lemma fl64_zero: "fl64 0 = 0"
  by (simp add: fl64_def)

lemma fl64_pos:
  assumes "0 < x"
  shows "0 < fl64 x"
proof -
  let ?u = "(2::rat) powi (ilog2 x - 52)"
  have u: "0 < ?u" by simp
  have "2 ^ 52 * ?u = (2::rat) powi (ilog2 x)"
    by (rule powi_52[symmetric])
  also have "\<dots> \<le> x" using assms by (rule ilog2_bounds(1))
  finally have "(2::rat) ^ 52 \<le> x / ?u"
    using u by (simp only: pos_le_divide_eq)
  then have "of_int (2 ^ 52) \<le> x / ?u" by simp
  then have "2 ^ 52 \<le> rne (x / ?u)" by (rule rne_ge)
  then have "0 < rne (x / ?u)" by simp
  then have "0 < of_int (rne (x / ?u)) * ?u" using u by simp
  then show ?thesis using assms by (simp add: fl64_def Let_def abs_of_pos)
qed

lemma fl64_nonneg: "0 \<le> x \<Longrightarrow> 0 \<le> fl64 x"
  using fl64_pos[of x] by (cases "x = 0") (simp_all add: fl64_zero less_imp_le)

lemma fl64_error:
  assumes "0 < x"
  shows "\<bar>fl64 x - x\<bar> \<le> x / 2 ^ 53"
proof -
  let ?u = "(2::rat) powi (ilog2 x - 52)"
  let ?n = "x / ?u"
  have u: "0 < ?u" by simp
  have x: "x = ?n * ?u" using u by simp
  have "fl64 x - x = (of_int (rne ?n) - ?n) * ?u"
    using assms u by (simp add: fl64_def Let_def abs_of_pos algebra_simps)
  moreover have "\<bar>of_int (rne ?n) - ?n\<bar> \<le> 1 / 2"
    using rne_bounds[of ?n] by linarith
  ultimately have "\<bar>fl64 x - x\<bar> \<le> 1 / 2 * ?u"
    using u by (simp add: abs_mult mult_right_mono)
  also have "1 / 2 * ?u = 2 powi (ilog2 x) / 2 ^ 53"
    by (subst (2) powi_52) simp
  also have "\<dots> \<le> x / 2 ^ 53"
    using ilog2_bounds(1)[OF assms] by (simp add: divide_right_mono)
  finally show ?thesis .
qed

lemma fl64_below_one:
  assumes "0 < x" and "x \<le> 1 - 1 / 2 ^ 53"
  shows "fl64 x \<le> 1 - 1 / 2 ^ 53"
proof -
  let ?e = "ilog2 x"
  let ?u = "(2::rat) powi (?e - 52)"
  let ?n = "x / ?u"
  have u: "0 < ?u" by simp
  have fl: "fl64 x = of_int (rne ?n) * ?u"
    using assms(1) by (simp add: fl64_def Let_def abs_of_pos)
  have "(2::rat) powi ?e \<le> x" using assms(1) by (rule ilog2_bounds(1))
  also have "x < 1" using assms(2) by (simp add: field_simps)
  finally have lt1: "(2::rat) powi ?e < 1" .
  have e: "?e < 0"
  proof (rule ccontr)
    assume "\<not> ?e < 0"
    then have "(1::rat) \<le> 2 powi ?e" by (intro one_le_power_int) simp_all
    with lt1 show False by simp
  qed
  show ?thesis
  proof (cases "?e = -1")
    case True
    then have uu: "?u = 1 / 2 ^ 53" by (simp add: power_int_def field_simps)
    have "?n \<le> of_int (2 ^ 53 - 1)"
      using assms(2) by (simp add: uu field_simps)
    then have "rne ?n \<le> 2 ^ 53 - 1" by (rule rne_le)
    then have "(of_int (rne ?n) :: rat) \<le> of_int (2 ^ 53 - 1)" by (simp only: of_int_le_iff)
    then have "of_int (rne ?n) * ?u \<le> of_int (2 ^ 53 - 1) * ?u"
      using u by (intro mult_right_mono) simp_all
    then show ?thesis by (simp add: fl uu field_simps)
  next
    case False
    with e have e2: "?e + 1 \<le> -1" by simp
    have "x < 2 powi (?e + 1)" using assms(1) by (rule ilog2_bounds(2))
    also have "\<dots> = 2 ^ 53 * ?u" by (rule powi_53)
    finally have "?n < 2 ^ 53" using u by (simp only: pos_divide_less_eq)
    then have "?n \<le> of_int (2 ^ 53)" by simp
    then have "rne ?n \<le> 2 ^ 53" by (rule rne_le)
    then have "(of_int (rne ?n) :: rat) \<le> of_int (2 ^ 53)" by (simp only: of_int_le_iff)
    then have "of_int (rne ?n) * ?u \<le> of_int (2 ^ 53) * ?u"
      using u by (intro mult_right_mono) simp_all
    also have "of_int (2 ^ 53) * ?u = 2 powi (?e + 1)"
      by (subst powi_53) simp
    also have "\<dots> \<le> 2 powi (-1)"
      using e2 by (intro power_int_increasing) simp_all
    also have "\<dots> \<le> 1 - 1 / 2 ^ 53" by (simp add: power_int_def)
    finally show ?thesis by (simp add: fl)
  qed
qed

section \<open>Properties of the master table\<close>

lemma length_filter_distinct_key:
  "distinct (map f xs) \<Longrightarrow> length (filter (\<lambda>y. f y = k) xs) \<le> 1"
  by (induction xs) (auto simp add: filter_empty_conv image_iff)

lemma key_vals_update: "key (a\<lparr>vals := v\<rparr>) = key a"
  by (simp add: key_def)

lemma key_join_row: "m \<in> set (join_row l r a) \<Longrightarrow> key m = key a"
  by (auto simp add: join_row_def Let_def key_vals_update split: list.splits)

lemma length_join_row:
  "length (filter (\<lambda>b. key b = key a) (rows r)) \<le> 1 \<Longrightarrow> length (join_row l r a) = 1"
  by (auto simp add: join_row_def Let_def split: list.splits)

lemma map_key_join_row:
  assumes "length (filter (\<lambda>b. key b = key a) (rows r)) \<le> 1"
  shows "map key (join_row l r a) = [key a]"
proof -
  have "length (join_row l r a) = 1"
    using assms by (rule length_join_row)
  then obtain m where m: "join_row l r a = [m]"
    by (cases "join_row l r a") auto
  then have "m \<in> set (join_row l r a)" by simp
  then have "key m = key a" by (rule key_join_row)
  then show ?thesis by (simp add: m)
qed

lemma rows_merge_left: "rows (merge_left l r) = concat (map (join_row l r) (rows l))"
  by (simp add: merge_left_def)

lemma cols_merge_left:
  "cols (merge_left l r) =
     map (suffixed (cols r) ''_x'') (cols l) @ map (suffixed (cols l) ''_y'') (cols r)"
  by (simp add: merge_left_def)

lemma map_key_merge_left:
  assumes "distinct (map key (rows r))"
  shows "map key (rows (merge_left l r)) = map key (rows l)"
proof -
  have "map key (join_row l r a) = [key a]" for a
    using assms by (intro map_key_join_row length_filter_distinct_key)
  then have "concat (map (\<lambda>a. map key (join_row l r a)) xs) = map key xs" for xs
    by (induction xs) simp_all
  then show ?thesis
    by (simp add: rows_merge_left map_concat comp_def)
qed

lemma length_rows_fillna0: "length (rows (fillna0 df)) = length (rows df)"
  by (simp add: fillna0_def)

lemma relabel_suffixed_id:
  "set (map fst vs) \<inter> set other = {} \<Longrightarrow> relabel (suffixed other sfx) vs = vs"
  by (induction vs) (auto simp add: relabel_def suffixed_def)

lemma map_suffixed_id: "set cs \<inter> set other = {} \<Longrightarrow> map (suffixed other sfx) cs = cs"
  by (induction cs) (auto simp add: suffixed_def)

lemma val_append:
  "val (a\<lparr>vals := v1 @ v2\<rparr>) c =
     (if c \<in> set (map fst v1) then val (a\<lparr>vals := v1\<rparr>) c else val (a\<lparr>vals := v2\<rparr>) c)"
proof (cases "map_of v1 c")
  case None
  then have "c \<notin> set (map fst v1)" by (simp add: map_of_eq_None_iff)
  with None show ?thesis by (simp add: val_def map_add_def)
next
  case (Some y)
  then have "c \<in> set (map fst v1)" by (metis map_of_eq_None_iff option.distinct(1) set_map)
  with Some show ?thesis by (simp add: val_def map_add_def)
qed

lemma val_vals_same: "val (a\<lparr>vals := vals b\<rparr>) c = val b c"
  by (simp add: val_def)

lemma val_empty_cells: "val (a\<lparr>vals := map (\<lambda>c. (c, None)) cs\<rparr>) c = None"
  by (simp add: val_def map_of_map_restrict restrict_map_def)

lemma join_row_cases:
  assumes "m \<in> set (join_row l r a)"
    and "map fst (vals a) = cols l"
    and "set (cols l) \<inter> set (cols r) = {}"
    and "wf_frame r"
  shows "(key a \<notin> key ` set (rows r) \<and> m = a\<lparr>vals := vals a @ map (\<lambda>c. (c, None)) (cols r)\<rparr>) \<or>
         (\<exists>b \<in> set (rows r). key b = key a \<and> m = a\<lparr>vals := vals a @ vals b\<rparr>)"
proof -
  have l: "relabel (suffixed (cols r) ''_x'') (vals a) = vals a"
    using assms(2,3) by (intro relabel_suffixed_id) simp
  have r: "map (\<lambda>c. (suffixed (cols l) ''_y'' c, None :: rat option)) (cols r)
      = map (\<lambda>c. (c, None)) (cols r)"
    using assms(3) by (intro map_cong) (auto simp add: suffixed_def)
  have b: "relabel (suffixed (cols l) ''_y'') (vals b) = vals b" if "b \<in> set (rows r)" for b
  proof (rule relabel_suffixed_id)
    from that assms(4) have "map fst (vals b) = cols r"
      by (simp add: wf_frame_def list_all_iff)
    then show "set (map fst (vals b)) \<inter> set (cols l) = {}"
      using assms(3) by auto
  qed
  show ?thesis
  proof (cases "filter (\<lambda>b. key b = key a) (rows r)")
    case Nil
    then have "key a \<notin> key ` set (rows r)"
      by (auto simp add: filter_empty_conv)
    moreover from Nil assms(1) have "m = a\<lparr>vals := vals a @ map (\<lambda>c. (c, None)) (cols r)\<rparr>"
      by (simp add: join_row_def Let_def l r)
    ultimately show ?thesis by simp
  next
    case (Cons x xs)
    with assms(1) obtain b where bm: "b \<in> set (x # xs)"
      and m: "m = a\<lparr>vals := relabel (suffixed (cols r) ''_x'') (vals a)
                        @ relabel (suffixed (cols l) ''_y'') (vals b)\<rparr>"
      by (auto simp add: join_row_def Let_def)
    from bm Cons have "b \<in> set (filter (\<lambda>b. key b = key a) (rows r))" by simp
    then have "b \<in> set (rows r)" and "key b = key a" by simp_all
    then show ?thesis using m by (auto simp add: l b)
  qed
qed

lemma join_row_props:
  assumes "m \<in> set (join_row l r a)"
    and "map fst (vals a) = cols l"
    and "set (cols l) \<inter> set (cols r) = {}"
    and "wf_frame r"
  shows "map fst (vals m) = cols l @ cols r"
    and "c \<in> set (cols l) \<Longrightarrow> val m c = val a c"
    and "c \<in> set (cols r) \<Longrightarrow> key a \<notin> key ` set (rows r) \<Longrightarrow> val m c = None"
proof -
  note cases = join_row_cases[OF assms]
  have wfb: "map fst (vals b) = cols r" if "b \<in> set (rows r)" for b
    using that assms(4) by (simp add: wf_frame_def list_all_iff)
  show "map fst (vals m) = cols l @ cols r"
    using cases assms(2) wfb by (auto simp add: comp_def)
  show "val m c = val a c" if "c \<in> set (cols l)"
    using cases that assms(2) by (auto simp add: val_append)
  show "val m c = None" if "c \<in> set (cols r)" and "key a \<notin> key ` set (rows r)"
  proof -
    from that(1) assms(2,3) have "c \<notin> set (map fst (vals a))" by auto
    moreover from cases that(2) have "m = a\<lparr>vals := vals a @ map (\<lambda>c. (c, None)) (cols r)\<rparr>"
      by (metis image_eqI)
    ultimately show ?thesis
      by (simp only: val_append val_empty_cells if_False)
  qed
qed

lemma wf_merge_left:
  assumes "wf_frame l" and "wf_frame r" and "set (cols l) \<inter> set (cols r) = {}"
  shows "wf_frame (merge_left l r)" and "cols (merge_left l r) = cols l @ cols r"
proof -
  show c: "cols (merge_left l r) = cols l @ cols r"
    using assms(3) by (simp add: cols_merge_left map_suffixed_id Int_commute)
  have "map fst (vals m) = cols l @ cols r" if "m \<in> set (rows (merge_left l r))" for m
  proof -
    from that obtain a where a: "a \<in> set (rows l)" and m: "m \<in> set (join_row l r a)"
      by (auto simp add: rows_merge_left)
    from a assms(1) have "map fst (vals a) = cols l"
      by (simp add: wf_frame_def list_all_iff)
    with m show ?thesis using assms(3,2) by (rule join_row_props(1))
  qed
  then show "wf_frame (merge_left l r)"
    by (simp add: wf_frame_def list_all_iff c)
qed

lemma rows_fillna0: "rows (fillna0 df) = map fill_row (rows df)"
  by (simp add: fillna0_def)


lemma val_fill_row:
  "val (fill_row r) c = (if c \<in> set (map fst (vals r)) then Some (nan0 (val r c)) else None)"
proof -
  have "map_of (map (\<lambda>(c, v). (c, Some (nan0 v))) al) c = map_option (\<lambda>v. Some (nan0 v)) (map_of al c)"
    for al :: "(string \<times> rat option) list"
    by (induction al) auto
  then have mo: "map_of (vals (fill_row r)) c = map_option (\<lambda>v. Some (nan0 v)) (map_of (vals r) c)"
    by (simp add: fill_row_def)
  show ?thesis
  proof (cases "map_of (vals r) c")
    case None
    then have "c \<notin> set (map fst (vals r))" by (simp add: map_of_eq_None_iff)
    with None show ?thesis by (simp add: val_def mo)
  next
    case (Some v)
    then have "c \<in> set (map fst (vals r))"
      by (metis map_of_eq_None_iff option.distinct(1) set_map)
    with Some show ?thesis by (simp add: val_def mo)
  qed
qed

lemma names_fill_row: "map fst (vals (fill_row r)) = map fst (vals r)"
  by (simp add: fill_row_def comp_def case_prod_unfold)

lemma key_fill_row: "notna_key (key r) \<Longrightarrow> key (fill_row r) = key r"
  by (auto simp add: key_def notna_key_def fill_row_def fill_cell_def split: cell.splits)

text \<open>
  Claim C7. The tables are aggregated, joined and zero-filled; the measure columns of
  the three tables have different names. Every row of the result has a key of the
  enrolment aggregate. When the demographic aggregate has no row of that key, every
  column of the demographic table is 0 in the row; likewise for the biometric
  aggregate. The record \<^verbatim>\<open>(2024-01, KA, Bengaluru Urban, 560001, age_0_5=10, age_5_17=5)\<close>
  with no update record gives one row with \<^verbatim>\<open>total_updates = 0\<close> and \<^verbatim>\<open>DVI = 0\<close>,
  its district \<^verbatim>\<open>Bengaluru\<close>.
\<close>

theorem join_miss_zero_filled:
  assumes "set (cols E) \<inter> set (cols D) = {}"
    and "(set (cols E) \<union> set (cols D)) \<inter> set (cols B) = {}"
    and "m \<in> set (rows (fillna0 (merge_left (merge_left (groupby_sum E) (groupby_sum D))
                                            (groupby_sum B))))"
  shows "key m \<in> key ` set (rows (groupby_sum E)) \<and>
         (key m \<notin> key ` set (rows (groupby_sum D)) \<longrightarrow> (\<forall>c \<in> set (cols D). val m c = Some 0)) \<and>
         (key m \<notin> key ` set (rows (groupby_sum B)) \<longrightarrow> (\<forall>c \<in> set (cols B). val m c = Some 0)) \<and>
         pipeline parse_month enrol_A demo_none bio_none =
           Inr (\<lparr>cols = [''age_0_5'', ''age_5_17'', ''demo_age_5_17'', ''demo_age_17_'',
                         ''bio_age_5_17'', ''bio_age_17_'', ''enrolment_pressure'',
                         ''total_updates'', ''DVI''],
                 rows = [\<lparr>date = Ts jan_2024, state = Str ''KA'', district = Str ''Bengaluru'',
                          pincode = Num 560001,
                          vals = [(''age_0_5'', Some 10), (''age_5_17'', Some 5),
                                  (''demo_age_5_17'', Some 0), (''demo_age_17_'', Some 0),
                                  (''bio_age_5_17'', Some 0), (''bio_age_17_'', Some 0),
                                  (''enrolment_pressure'', Some 15), (''total_updates'', Some 0),
                                  (''DVI'', Some 0)]\<rparr>]\<rparr>,
                [(Str ''Bengaluru'', 0)])"
proof -
  let ?e = "groupby_sum E" and ?d = "groupby_sum D" and ?b = "groupby_sum B"
  let ?m1 = "merge_left ?e ?d"
  have ed: "set (cols ?e) \<inter> set (cols ?d) = {}"
    using assms(1) by (simp add: cols_groupby_sum)
  have wf1: "wf_frame ?m1" and c1: "cols ?m1 = cols E @ cols D"
    using wf_merge_left[OF wf_groupby_sum wf_groupby_sum ed] by (simp_all add: cols_groupby_sum)
  have mb: "set (cols ?m1) \<inter> set (cols ?b) = {}"
    using assms(2) by (simp add: c1 cols_groupby_sum)
  from assms(3) obtain m2 where m: "m = fill_row m2" and m2: "m2 \<in> set (rows (merge_left ?m1 ?b))"
    by (auto simp add: rows_fillna0)
  from m2 obtain r1 where r1: "r1 \<in> set (rows ?m1)" and m2j: "m2 \<in> set (join_row ?m1 ?b r1)"
    by (auto simp add: rows_merge_left)
  from r1 obtain a where a: "a \<in> set (rows ?e)" and r1j: "r1 \<in> set (join_row ?e ?d a)"
    by (auto simp add: rows_merge_left)
  have wa: "map fst (vals a) = cols ?e"
    using a wf_groupby_sum[of E] by (simp add: wf_frame_def list_all_iff)
  have w1: "map fst (vals r1) = cols ?m1"
    using r1 wf1 by (simp add: wf_frame_def list_all_iff)
  note p1 = join_row_props[OF r1j wa ed wf_groupby_sum]
  note p2 = join_row_props[OF m2j w1 mb wf_groupby_sum]
  have k2: "key m2 = key a"
    using key_join_row[OF m2j] key_join_row[OF r1j] by simp
  have "notna_key (key a)" using a by (rule notna_groupby_sum)
  then have km: "key m = key a"
    by (simp add: m key_fill_row k2)
  have names: "map fst (vals m2) = cols E @ cols D @ cols B"
    using p2(1) by (simp add: c1 cols_groupby_sum)
  have filled: "val m c = Some (nan0 (val m2 c))" if "c \<in> set (cols D) \<union> set (cols B)" for c
    using that by (auto simp add: m val_fill_row names)
  have "key m \<in> key ` set (rows ?e)"
    using a km by auto
  moreover have "\<forall>c \<in> set (cols D). val m c = Some 0" if "key m \<notin> key ` set (rows ?d)"
  proof
    fix c assume c: "c \<in> set (cols D)"
    then have "val r1 c = None"
      using p1(3)[of c] that by (simp add: cols_groupby_sum km)
    moreover have "val m2 c = val r1 c"
      using c by (intro p2(2)) (simp add: c1)
    ultimately show "val m c = Some 0"
      using c by (simp add: filled nan0_def)
  qed
  moreover have "\<forall>c \<in> set (cols B). val m c = Some 0" if "key m \<notin> key ` set (rows ?b)"
  proof
    fix c assume c: "c \<in> set (cols B)"
    have "key r1 = key a" using r1j by (rule key_join_row)
    then have "val m2 c = None"
      using p2(3)[of c] that c by (simp add: cols_groupby_sum km)
    then show "val m c = Some 0"
      using c by (simp add: filled nan0_def)
  qed
  moreover have "pipeline parse_month enrol_A demo_none bio_none =
           Inr (\<lparr>cols = [''age_0_5'', ''age_5_17'', ''demo_age_5_17'', ''demo_age_17_'',
                         ''bio_age_5_17'', ''bio_age_17_'', ''enrolment_pressure'',
                         ''total_updates'', ''DVI''],
                 rows = [\<lparr>date = Ts jan_2024, state = Str ''KA'', district = Str ''Bengaluru'',
                          pincode = Num 560001,
                          vals = [(''age_0_5'', Some 10), (''age_5_17'', Some 5),
                                  (''demo_age_5_17'', Some 0), (''demo_age_17_'', Some 0),
                                  (''bio_age_5_17'', Some 0), (''bio_age_17_'', Some 0),
                                  (''enrolment_pressure'', Some 15), (''total_updates'', Some 0),
                                  (''DVI'', Some 0)]\<rparr>]\<rparr>,
                [(Str ''Bengaluru'', 0)])"
    by code_simp
  ultimately show ?thesis by blast
qed


text \<open>
  The statement at the same enrolment record and a demographic record of another key.
\<close>

theorem join_miss_zero_filled_witness:
  "key (hd (rows (master parse_month enrol_A demo_other bio_none)))
     \<notin> key ` set (rows (groupby_sum (prepare parse_month demo_other))) \<and>
   val (hd (rows (master parse_month enrol_A demo_other bio_none))) ''demo_age_17_'' = Some 0"
proof -
  let ?E = "prepare parse_month enrol_A" and ?D = "prepare parse_month demo_other"
    and ?B = "prepare parse_month bio_none"
  let ?m = "hd (rows (master parse_month enrol_A demo_other bio_none))"
  have 1: "set (cols ?E) \<inter> set (cols ?D) = {}"
    by code_simp
  have 2: "(set (cols ?E) \<union> set (cols ?D)) \<inter> set (cols ?B) = {}"
    by code_simp
  have 3: "?m \<in> set (rows (fillna0 (merge_left (merge_left (groupby_sum ?E) (groupby_sum ?D))
                                            (groupby_sum ?B))))"
    unfolding master_def Let_def by code_simp
  have 4: "key ?m \<notin> key ` set (rows (groupby_sum ?D))"
    by code_simp
  have 5: "''demo_age_17_'' \<in> set (cols ?D)"
    by code_simp
  from join_miss_zero_filled[OF 1 2 3] 4 5 show ?thesis
    by blast
qed

section \<open>The claims on the aggregation\<close>

text \<open>
  Claim C1, as the code has it. The aggregate has no two rows of one key, and its
  keys are the keys of the input whose four cells are all present: a record with an
  empty key cell (a date that did not parse, for one) goes into no row. In every row
  of the aggregate, a measure column holds the sum of that column over the input
  records of the row's key, an empty cell counting as 0, when those cells are whole
  numbers whose magnitudes sum to at most \<open>2 ^ 53\<close>. Two records of one key with 3 and 7
  in \<^verbatim>\<open>age_0_5\<close> aggregate to a single row with 10.
\<close>

theorem groupby_sum_one_row_per_key:
  "distinct (map key (rows (groupby_sum df))) \<and>
   set (map key (rows (groupby_sum df))) = {k \<in> key ` set (rows df). notna_key k} \<and>
   (\<forall>out \<in> set (rows (groupby_sum df)). \<forall>c \<in> set (cols df).
      whole_counts (map (\<lambda>r. nan0 (val r c)) (filter (\<lambda>r. key r = key out) (rows df))) \<longrightarrow>
      val out c =
        Some (sum_list (map (\<lambda>r. nan0 (val r c)) (filter (\<lambda>r. key r = key out) (rows df))))) \<and>
   (\<exists>out. rows (groupby_sum two_records) = [out] \<and> val out ''age_0_5'' = Some 10)"
proof (intro conjI)
  show "distinct (map key (rows (groupby_sum df)))"
    by (rule distinct_keys_groupby_sum)
  show "set (map key (rows (groupby_sum df))) = {k \<in> key ` set (rows df). notna_key k}"
    by (rule set_keys_groupby_sum)
  show "\<forall>out \<in> set (rows (groupby_sum df)). \<forall>c \<in> set (cols df).
      whole_counts (map (\<lambda>r. nan0 (val r c)) (filter (\<lambda>r. key r = key out) (rows df))) \<longrightarrow>
      val out c =
        Some (sum_list (map (\<lambda>r. nan0 (val r c)) (filter (\<lambda>r. key r = key out) (rows df))))"
    using val_groupby_sum[of _ df] by (simp add: col_sum_def)
  show "\<exists>out. rows (groupby_sum two_records) = [out] \<and> val out ''age_0_5'' = Some 10"
    by (simp add: rows_two_records val_def)
qed

text \<open>
  The statement at the two records: one row, of their key, and in \<^verbatim>\<open>age_5_17\<close> the sum
  of their cells 1 and 2.
\<close>

theorem groupby_sum_one_row_per_key_witness:
  "set (map key (rows (groupby_sum two_records))) =
     {(Ts jan_2024, Str ''KA'', Str ''Bengaluru'', Num 560001)} \<and>
   whole_counts (map (\<lambda>r. nan0 (val r ''age_5_17'')) (rows two_records)) \<and>
   val (hd (rows (groupby_sum two_records))) ''age_5_17'' = Some (1 + 2)"
proof -
  have k: "{k \<in> key ` set (rows two_records). notna_key k} =
      {(Ts jan_2024, Str ''KA'', Str ''Bengaluru'', Num 560001)}"
    by (auto simp add: two_records_def key_def notna_key_def)
  have m: "hd (rows (groupby_sum two_records)) \<in> set (rows (groupby_sum two_records))"
    by (simp add: rows_two_records)
  have c: "''age_5_17'' \<in> set (cols two_records)"
    by (simp add: two_records_def)
  have f: "filter (\<lambda>r. key r = key (hd (rows (groupby_sum two_records)))) (rows two_records)
      = rows two_records"
    by (simp add: rows_two_records) (simp add: two_records_def key_def)
  have w: "whole_counts (map (\<lambda>r. nan0 (val r ''age_5_17'')) (rows two_records))"
    by (simp add: whole_counts_def two_records_def val_def nan0_def)
  from groupby_sum_one_row_per_key[of two_records] m c
  have "set (map key (rows (groupby_sum two_records))) =
          {k \<in> key ` set (rows two_records). notna_key k}"
    and "whole_counts (map (\<lambda>r. nan0 (val r ''age_5_17''))
          (filter (\<lambda>r. key r = key (hd (rows (groupby_sum two_records)))) (rows two_records))) \<longrightarrow>
        val (hd (rows (groupby_sum two_records))) ''age_5_17'' =
        Some (sum_list (map (\<lambda>r. nan0 (val r ''age_5_17''))
          (filter (\<lambda>r. key r = key (hd (rows (groupby_sum two_records)))) (rows two_records))))"
    by blast+
  then show ?thesis
    unfolding f k using w by (simp add: two_records_def val_def nan0_def)
qed

text \<open>
  Claim C1 as written fails on a record with an empty key cell: the table has one
  distinct key and the aggregate no row.
\<close>

theorem undated_record_not_aggregated:
  "length (remdups (map key (rows undated_record))) = 1 \<and>
   rows (groupby_sum undated_record) = []"
  by (simp add: groupby_sum_def undated_record_def Let_def key_def notna_key_def)

lemma insort_key_map:
  "insort_key f (g x) (map g xs) = map g (insort_key (\<lambda>y. f (g y)) x xs)"
  by (induction xs) simp_all

lemma sort_key_map: "sort_key f (map g xs) = map g (sort_key (\<lambda>y. f (g y)) xs)"
  by (induction xs) (simp_all add: insort_key_map)

lemma filter_distinct_key:
  "distinct (map f xs) \<Longrightarrow> x \<in> set xs \<Longrightarrow> filter (\<lambda>y. f y = f x) xs = [x]"
  by (induction xs) (auto simp add: image_iff filter_empty_conv)

lemma rebuild_vals:
  "distinct (map fst al) \<Longrightarrow> list_all (\<lambda>p. snd p \<noteq> None) al \<Longrightarrow>
   map (\<lambda>n. (n, Some (nan0 (case map_of al n of None \<Rightarrow> None | Some v \<Rightarrow> v)))) (map fst al) = al"
proof (induction al)
  case Nil
  then show ?case by simp
next
  case (Cons p al)
  obtain n v where p: "p = (n, v)" by (cases p)
  from Cons.prems have n: "n \<notin> fst ` set al" and v: "v \<noteq> None"
    by (auto simp add: p)
  have "map (\<lambda>m. (m, Some (nan0 (case map_of (p # al) m of None \<Rightarrow> None | Some v \<Rightarrow> v)))) (map fst al)
      = map (\<lambda>m. (m, Some (nan0 (case map_of al m of None \<Rightarrow> None | Some v \<Rightarrow> v)))) (map fst al)"
    using n by (intro map_cong) (auto simp add: p)
  with Cons show ?case
    using v by (auto simp add: p nan0_def)
qed

lemma group_row_single:
  assumes "map fst (vals r) = cs" and "distinct cs" and "\<forall>c \<in> set cs. val r c \<noteq> None"
    and "filter (\<lambda>x. key x = key r) rs = [r]"
  shows "group_row cs rs (key r) = r"
proof -
  have "list_all (\<lambda>p. snd p \<noteq> None) (vals r)"
    unfolding list_all_iff
  proof
    fix p assume p: "p \<in> set (vals r)"
    then have "fst p \<in> set cs" using assms(1) by force
    moreover have "map_of (vals r) (fst p) = Some (snd p)"
      using p assms(1,2) by simp
    ultimately show "snd p \<noteq> None" using assms(3) by (auto simp add: val_def)
  qed
  then have "map (\<lambda>n. (n, Some (nan0 (val r n)))) cs = vals r"
    using rebuild_vals[of "vals r"] assms(1,2) by (simp add: val_def)
  then show ?thesis
    using assms(4) by (simp add: group_row_def key_def col_sum_def)
qed

lemma groupby_sum_on_key_unique:
  assumes "wf_frame df" and "distinct (cols df)" and "distinct (map key (rows df))"
    and "\<forall>r \<in> set (rows df). notna_key (key r) \<and> (\<forall>c \<in> set (cols df). val r c \<noteq> None)"
  shows "groupby_sum df = df\<lparr>rows := sort_key (\<lambda>r. key_rank (key r)) (rows df)\<rparr> \<and>
         (sorted (map (\<lambda>r. key_rank (key r)) (rows df)) \<longrightarrow> groupby_sum df = df)"
proof -
  have kept: "filter (\<lambda>r. notna_key (key r)) (rows df) = rows df"
    using assms(4) by simp
  have single: "group_row (cols df) (rows df) (key r) = r" if "r \<in> set (rows df)" for r
  proof (rule group_row_single)
    show "map fst (vals r) = cols df"
      using assms(1) that by (simp add: wf_frame_def list_all_iff)
    show "distinct (cols df)" by (rule assms(2))
    show "\<forall>c \<in> set (cols df). val r c \<noteq> None" using assms(4) that by simp
    show "filter (\<lambda>x. key x = key r) (rows df) = [r]"
      using assms(3) that by (rule filter_distinct_key)
  qed
  have "rows (groupby_sum df) =
      map (\<lambda>r. group_row (cols df) (rows df) (key r)) (sort_key (\<lambda>r. key_rank (key r)) (rows df))"
    using assms(3) by (simp add: rows_groupby_sum kept distinct_remdups_id sort_key_map comp_def)
  also have "\<dots> = sort_key (\<lambda>r. key_rank (key r)) (rows df)"
    by (rule map_idI) (simp add: single)
  finally have r: "rows (groupby_sum df) = sort_key (\<lambda>r. key_rank (key r)) (rows df)" .
  then have "groupby_sum df = df\<lparr>rows := sort_key (\<lambda>r. key_rank (key r)) (rows df)\<rparr>"
    by (intro frame.equality) (simp_all add: cols_groupby_sum)
  then show ?thesis
    by (simp add: sort_key_id_if_sorted)
qed


lemma groupby_sum_idem: "groupby_sum (groupby_sum df) = groupby_sum df"
proof -
  let ?kept = "filter (\<lambda>r. notna_key (key r)) (rows df)"
  let ?g = "groupby_sum df"
  let ?ks = "map key (rows ?g)"
  have all: "filter (\<lambda>r. notna_key (key r)) (rows ?g) = rows ?g"
    using notna_groupby_sum[of _ df] by simp
  have srt: "sort_key key_rank (remdups ?ks) = ?ks"
  proof -
    have "remdups ?ks = ?ks"
      by (intro distinct_remdups_id distinct_keys_groupby_sum)
    moreover have "sorted (map key_rank ?ks)"
      by (simp only: keys_groupby_sum sorted_sort_key)
    ultimately show ?thesis by (simp only: sort_key_id_if_sorted)
  qed
  have one: "group_row (cols df) (rows ?g) (key r) = r" if r: "r \<in> set (rows ?g)" for r
  proof -
    from r have "r \<in> group_row (cols df) ?kept `
        set (sort_key key_rank (remdups (map key ?kept)))"
      by (simp only: rows_groupby_sum set_map)
    then obtain k where rk: "r = group_row (cols df) ?kept k" by (rule imageE)
    then have k: "key r = k" by (simp add: key_group_row)
    have f: "filter (\<lambda>x. key x = key r) (rows ?g) = [r]"
      using distinct_keys_groupby_sum r by (rule filter_distinct_key)
    have sums: "map (\<lambda>n. (n, Some (col_sum n [r]))) (cols df)
        = map (\<lambda>n. (n, Some (col_sum n (filter (\<lambda>x. key x = k) ?kept)))) (cols df)"
    proof (rule map_cong[OF refl])
      fix n assume "n \<in> set (cols df)"
      then have "val r n = Some (col_sum n (filter (\<lambda>x. key x = k) ?kept))"
        unfolding rk by (rule val_group_row)
      then show "(n, Some (col_sum n [r])) = (n, Some (col_sum n (filter (\<lambda>x. key x = k) ?kept)))"
        by (simp add: col_sum_def nan0_def)
    qed
    have "vals (group_row (cols df) (rows ?g) (key r))
        = map (\<lambda>n. (n, Some (col_sum n [r]))) (cols df)"
      by (simp only: vals_group_row f)
    also note sums
    also have "map (\<lambda>n. (n, Some (col_sum n (filter (\<lambda>x. key x = k) ?kept)))) (cols df)
        = vals (group_row (cols df) ?kept k)"
      by (simp only: vals_group_row)
    also have "\<dots> = vals r" by (simp only: rk)
    finally have "vals (group_row (cols df) (rows ?g) (key r)) = vals r" .
    moreover have "key (group_row (cols df) (rows ?g) (key r)) = key r"
      by (rule key_group_row)
    ultimately show ?thesis
      by (cases r, cases "group_row (cols df) (rows ?g) (key r)") (simp add: key_def)
  qed
  have "rows (groupby_sum ?g) =
      map (group_row (cols ?g) (filter (\<lambda>r. notna_key (key r)) (rows ?g)))
        (sort_key key_rank (remdups (map key (filter (\<lambda>r. notna_key (key r)) (rows ?g)))))"
    by (rule rows_groupby_sum)
  also have "\<dots> = map (group_row (cols df) (rows ?g)) ?ks"
    by (simp only: all cols_groupby_sum srt)
  also have "\<dots> = map (\<lambda>r. group_row (cols df) (rows ?g) (key r)) (rows ?g)"
    by (simp only: map_map comp_def)
  also have "\<dots> = rows ?g"
    by (rule map_idI) (simp add: one)
  finally show ?thesis
    by (intro frame.equality) (simp_all add: cols_groupby_sum)
qed

lemma sorted_groupby_sum: "sorted (map (\<lambda>r. key_rank (key r)) (rows (groupby_sum df)))"
proof -
  have "sorted (map key_rank (map key (rows (groupby_sum df))))"
    by (simp only: keys_groupby_sum sorted_sort_key)
  then show ?thesis by (simp add: comp_def)
qed

text \<open>
  Claim C4, as the code has it. The aggregation of an aggregate is that aggregate:
  its rows are in ascending order of the key, and aggregating them again changes
  nothing. For any table with no two rows of one key, no empty key cell and no empty
  measure cell (its rows holding the table's columns, each named once), the
  aggregation returns the same rows in ascending order of the key, and so the table
  unchanged when the rows are in that order already.
\<close>

theorem groupby_sum_key_unique:
  "groupby_sum (groupby_sum df) = groupby_sum df \<and>
   sorted (map (\<lambda>r. key_rank (key r)) (rows (groupby_sum df))) \<and>
   (wf_frame df \<and> distinct (cols df) \<and> distinct (map key (rows df)) \<and>
    (\<forall>r \<in> set (rows df). notna_key (key r) \<and> (\<forall>c \<in> set (cols df). val r c \<noteq> None)) \<longrightarrow>
      groupby_sum df = df\<lparr>rows := sort_key (\<lambda>r. key_rank (key r)) (rows df)\<rparr> \<and>
      (sorted (map (\<lambda>r. key_rank (key r)) (rows df)) \<longrightarrow> groupby_sum df = df))"
  using groupby_sum_idem[of df] sorted_groupby_sum[of df] groupby_sum_on_key_unique[of df]
  by blast

text \<open>
  The statement at the two records with the later date first: the aggregation returns
  them with the earlier date first, and that table is returned unchanged.
\<close>

theorem groupby_sum_key_unique_witness:
  "rows (groupby_sum shuffled_records) = rev (rows shuffled_records) \<and>
   groupby_sum (shuffled_records\<lparr>rows := rev (rows shuffled_records)\<rparr>)
     = shuffled_records\<lparr>rows := rev (rows shuffled_records)\<rparr>"
proof -
  let ?df = "shuffled_records" and ?df' = "shuffled_records\<lparr>rows := rev (rows shuffled_records)\<rparr>"
  have h: "wf_frame ?df \<and> distinct (cols ?df) \<and> distinct (map key (rows ?df)) \<and>
      (\<forall>r \<in> set (rows ?df). notna_key (key r) \<and> (\<forall>c \<in> set (cols ?df). val r c \<noteq> None))"
    by (simp add: shuffled_records_def wf_frame_def key_def notna_key_def val_def
        jan_2024_def feb_2024_def)
  have h': "wf_frame ?df' \<and> distinct (cols ?df') \<and> distinct (map key (rows ?df')) \<and>
      (\<forall>r \<in> set (rows ?df'). notna_key (key r) \<and> (\<forall>c \<in> set (cols ?df'). val r c \<noteq> None))"
    by (simp add: shuffled_records_def wf_frame_def key_def notna_key_def val_def
        jan_2024_def feb_2024_def)
  have s: "sort_key (\<lambda>r. key_rank (key r)) (rows ?df) = rev (rows ?df)"
    by (simp add: shuffled_records_def key_def key_rank_def jan_2024_def feb_2024_def)
  have s': "sorted (map (\<lambda>r. key_rank (key r)) (rows ?df'))"
    by (simp add: shuffled_records_def key_def key_rank_def jan_2024_def feb_2024_def)
  from groupby_sum_key_unique[of ?df] h
  have "groupby_sum ?df = ?df\<lparr>rows := sort_key (\<lambda>r. key_rank (key r)) (rows ?df)\<rparr>"
    by blast
  then have "rows (groupby_sum ?df) = rev (rows ?df)"
    by (simp add: s)
  moreover from groupby_sum_key_unique[of ?df'] h' s' have "groupby_sum ?df' = ?df'"
    by blast
  ultimately show ?thesis by simp
qed

text \<open>
  Claim C4 as written fails: the two records have different keys, and the aggregation
  returns them in the other order and with 0 in the empty cell.
\<close>

theorem unsorted_records_changed:
  "distinct (map key (rows unsorted_records)) \<and>
   rows (groupby_sum unsorted_records) =
     [\<lparr>date = Ts jan_2024, state = Str ''KA'', district = Str ''Bengaluru'',
       pincode = Num 560001, vals = [(''age_0_5'', Some 7), (''age_5_17'', Some 0)]\<rparr>,
      \<lparr>date = Ts feb_2024, state = Str ''KA'', district = Str ''Bengaluru'',
       pincode = Num 560001, vals = [(''age_0_5'', Some 3), (''age_5_17'', Some 1)]\<rparr>] \<and>
   groupby_sum unsorted_records \<noteq> unsorted_records"
  by (simp add: groupby_sum_def unsorted_records_def Let_def key_def notna_key_def
      group_row_def col_sum_def val_def nan0_def key_rank_def jan_2024_def feb_2024_def)

section \<open>The claims on the join\<close>

lemma same_kinds_keys:
  assumes "map key (rows m) = map key (rows e)"
  shows "same_kinds m b = same_kinds e b"
proof -
  have f: "map f (rows m) = map f (rows e)"
    if "\<And>r. f r = g (key r)" for f :: "row \<Rightarrow> cell" and g
  proof -
    have "map f (rows m) = map g (map key (rows m))" by (simp add: that)
    also have "\<dots> = map g (map key (rows e))" by (simp only: assms)
    also have "\<dots> = map f (rows e)" by (simp add: that)
    finally show ?thesis .
  qed
  have "map date (rows m) = map date (rows e)"
    by (rule f[of date fst]) (simp add: key_def)
  moreover have "map state (rows m) = map state (rows e)"
    by (rule f[of state "\<lambda>k. fst (snd k)"]) (simp add: key_def)
  moreover have "map district (rows m) = map district (rows e)"
    by (rule f[of district "\<lambda>k. fst (snd (snd k))"]) (simp add: key_def)
  moreover have "map pincode (rows m) = map pincode (rows e)"
    by (rule f[of pincode "\<lambda>k. snd (snd (snd k))"]) (simp add: key_def)
  moreover have "(rows m = []) = (rows e = [])"
    using assms by (metis map_is_Nil_conv)
  ultimately show ?thesis
    by (simp add: same_kinds_def)
qed

text \<open>
  Claim C3, as the code has it. The aggregates are such that no two rows of the
  demographic aggregate have one key, nor two of the biometric aggregate, and the
  key columns of the update aggregates hold the kind of values that those of the
  enrolment aggregate hold (or a table has no row). Then both left joins are made,
  the joined and filled table has as many rows as the enrolment aggregate, and the
  keys of its rows are the keys of the enrolment aggregate, row by row.
\<close>

theorem merge_left_row_count:
  assumes "distinct (map key (rows demo_agg))" and "distinct (map key (rows bio_agg))"
    and "same_kinds enrol_agg demo_agg" and "same_kinds enrol_agg bio_agg"
  shows "\<exists>m m'. merge enrol_agg demo_agg = Inr m \<and> merge m bio_agg = Inr m' \<and>
           length (rows (fillna0 m')) = length (rows enrol_agg) \<and>
           map key (rows m') = map key (rows enrol_agg)"
proof -
  let ?m = "merge_left enrol_agg demo_agg"
  let ?m' = "merge_left ?m bio_agg"
  have k: "map key (rows ?m) = map key (rows enrol_agg)"
    using assms(1) by (rule map_key_merge_left)
  have k': "map key (rows ?m') = map key (rows enrol_agg)"
    using assms(2) by (simp add: map_key_merge_left k)
  then have "length (rows ?m') = length (rows enrol_agg)"
    by (metis length_map)
  moreover have "merge enrol_agg demo_agg = Inr ?m"
    using assms(3) by (simp add: merge_def)
  moreover have "merge ?m bio_agg = Inr ?m'"
    using assms(4) by (simp add: merge_def same_kinds_keys[OF k])
  ultimately show ?thesis
    using k' by (simp add: length_rows_fillna0)
qed

text \<open>
  The statement at the aggregates of the two districts, of a demographic record of
  the key of the first and of a biometric record of the key of the second: two
  rows stay two rows.
\<close>

theorem merge_left_row_count_witness:
  "\<exists>m m'. merge (groupby_sum (prepare parse_month two_districts))
                 (groupby_sum (prepare parse_month demo_other)) = Inr m \<and>
          merge m (groupby_sum (prepare parse_month bio_feb)) = Inr m' \<and>
          length (rows (fillna0 m')) = 2 \<and>
          map (\<lambda>r. val r ''demo_age_17_'') (rows m') = [Some 8, None] \<and>
          map (\<lambda>r. val r ''bio_age_17_'') (rows m') = [None, Some 2]"
proof -
  let ?e = "groupby_sum (prepare parse_month two_districts)"
  let ?d = "groupby_sum (prepare parse_month demo_other)"
  let ?b = "groupby_sum (prepare parse_month bio_feb)"
  have 1: "distinct (map key (rows ?d))" and 2: "distinct (map key (rows ?b))"
    by (rule distinct_keys_groupby_sum)+
  have 3: "same_kinds ?e ?d" and 4: "same_kinds ?e ?b"
    by code_simp+
  from merge_left_row_count[OF 1 2 3 4] obtain m m' where
    m: "merge ?e ?d = Inr m" "merge m ?b = Inr m'" "length (rows (fillna0 m')) = length (rows ?e)"
    by blast
  have l: "length (rows ?e) = 2" by code_simp
  from m(1) 3 have "m = merge_left ?e ?d" by (simp add: merge_def)
  moreover from m(2) have "m' = merge_left m ?b" by (simp add: merge_def split: if_splits)
  ultimately have m': "m' = merge_left (merge_left ?e ?d) ?b" by simp
  have "map (\<lambda>r. val r ''demo_age_17_'') (rows m') = [Some 8, None]"
    and "map (\<lambda>r. val r ''bio_age_17_'') (rows m') = [None, Some 2]"
    unfolding m' by code_simp+
  with m l show ?thesis by auto
qed

text \<open>
  Claim C3 as written fails on aggregates with unique keys whose pincode is a number
  in the enrolment table and a text in the demographic table: pandas refuses the
  join, and there is no joined table.
\<close>

theorem merge_refuses_mixed_keys:
  "distinct (map key (rows (groupby_sum (prepare parse_month enrol_A)))) \<and>
   distinct (map key (rows (groupby_sum (prepare parse_month demo_text_pincode)))) \<and>
   merge (groupby_sum (prepare parse_month enrol_A))
         (groupby_sum (prepare parse_month demo_text_pincode)) = Inl ValueError \<and>
   pipeline parse_month enrol_A demo_text_pincode bio_none = Inl ValueError"
  by code_simp

section \<open>Properties of the index\<close>

lemma val_update:
  "val (r\<lparr>vals := AList.update c v al\<rparr>) c' = (if c' = c then v else val (r\<lparr>vals := al\<rparr>) c')"
  by (simp add: val_def update_conv')

lemma rows_set_col:
  "rows (set_col df c s) = map (\<lambda>r. r\<lparr>vals := AList.update c (s r) (vals r)\<rparr>) (rows df)"
  by (simp add: set_col_def)

lemma cols_set_col: "set (cols (set_col df c s)) = insert c (set (cols df))"
  by (auto simp add: set_col_def)

lemma column_cases:
  "column df c = (if c \<in> set (cols df) then Inr (\<lambda>r. val r c) else Inl (KeyError c))"
  by (simp add: column_def)

lemma index_engine_cases:
  "index_engine df =
     (if ''age_0_5'' \<notin> set (cols df) then Inl (KeyError ''age_0_5'')
      else if ''age_5_17'' \<notin> set (cols df) then Inl (KeyError ''age_5_17'')
      else if ''demo_age_5_17'' \<notin> set (cols df) then Inl (KeyError ''demo_age_5_17'')
      else if ''demo_age_17_'' \<notin> set (cols df) then Inl (KeyError ''demo_age_17_'')
      else if ''bio_age_5_17'' \<notin> set (cols df) then Inl (KeyError ''bio_age_5_17'')
      else if ''bio_age_17_'' \<notin> set (cols df) then Inl (KeyError ''bio_age_17_'')
      else Inr (set_col
        (set_col
          (set_col df ''enrolment_pressure'' (\<lambda>r. add_na (val r ''age_0_5'') (val r ''age_5_17'')))
          ''total_updates''
          (\<lambda>r. add_na (add_na (add_na (val r ''demo_age_5_17'') (val r ''demo_age_17_''))
                   (val r ''bio_age_5_17'')) (val r ''bio_age_17_'')))
        ''DVI''
        (\<lambda>r. div_na (val r ''total_updates'')
               (add_na (add_na (val r ''enrolment_pressure'') (val r ''total_updates'')) (Some 1)))))"
  by (simp add: index_engine_def and_then_def column_cases cols_set_col Let_def)

lemma index_engine_vals:
  assumes "index_engine df = Inr df'" and "i < length (rows df)"
  defines "r \<equiv> rows df ! i" and "r' \<equiv> rows df' ! i"
  defines "ep \<equiv> add_na (val r ''age_0_5'') (val r ''age_5_17'')"
  defines "tu \<equiv> add_na (add_na (add_na (val r ''demo_age_5_17'') (val r ''demo_age_17_''))
                   (val r ''bio_age_5_17'')) (val r ''bio_age_17_'')"
  shows "length (rows df') = length (rows df)"
    and "val r' ''enrolment_pressure'' = ep"
    and "val r' ''total_updates'' = tu"
    and "val r' ''DVI'' = div_na tu (add_na (add_na ep tu) (Some 1))"
    and "key r' = key r"
proof -
  from assms(1) have df': "df' = set_col
        (set_col
          (set_col df ''enrolment_pressure'' (\<lambda>r. add_na (val r ''age_0_5'') (val r ''age_5_17'')))
          ''total_updates''
          (\<lambda>r. add_na (add_na (add_na (val r ''demo_age_5_17'') (val r ''demo_age_17_''))
                   (val r ''bio_age_5_17'')) (val r ''bio_age_17_'')))
        ''DVI''
        (\<lambda>r. div_na (val r ''total_updates'')
               (add_na (add_na (val r ''enrolment_pressure'') (val r ''total_updates'')) (Some 1)))"
    by (simp add: index_engine_cases split: if_splits)
  show "length (rows df') = length (rows df)"
    by (simp add: df' rows_set_col)
  show "val r' ''enrolment_pressure'' = ep"
    using assms(2) by (simp add: df' rows_set_col val_update r'_def ep_def r_def)
  show "val r' ''total_updates'' = tu"
    using assms(2) by (simp add: df' rows_set_col val_update r'_def tu_def r_def)
  show "val r' ''DVI'' = div_na tu (add_na (add_na ep tu) (Some 1))"
    using assms(2) by (simp add: df' rows_set_col val_update r'_def tu_def ep_def r_def)
  show "key r' = key r"
    using assms(2) by (simp add: df' rows_set_col r'_def r_def key_def)
qed

lemma index_engine_total:
  assumes "set [''age_0_5'', ''age_5_17'', ''demo_age_5_17'', ''demo_age_17_'',
                ''bio_age_5_17'', ''bio_age_17_''] \<subseteq> set (cols df)"
  shows "\<exists>df'. index_engine df = Inr df'"
  using assms by (simp add: index_engine_cases)


lemma dvi_float:
  fixes ep tu :: rat
  assumes "0 \<le> ep" and "0 \<le> tu" and "ep + tu + 1 \<le> 2 ^ 53"
  shows "ep + tu + 1 \<noteq> 0" and "0 \<le> fl64 (tu / (ep + tu + 1))"
    and "fl64 (tu / (ep + tu + 1)) < 1"
    and "fl64 (tu / (ep + tu + 1)) = 0 \<longleftrightarrow> tu = 0"
proof -
  let ?d = "ep + tu + 1"
  have pos: "0 < ?d" using assms(1,2) by linarith
  then show "?d \<noteq> 0" by simp
  have q0: "0 \<le> tu / ?d" using assms(2) pos by simp
  then show "0 \<le> fl64 (tu / ?d)" by (rule fl64_nonneg)
  have "1 / 2 ^ 53 \<le> 1 / ?d"
    using assms(3) pos by (simp add: frac_le)
  moreover have "tu / ?d \<le> 1 - 1 / ?d"
  proof -
    have "tu \<le> ?d - 1" using assms(1) by simp
    then have "tu / ?d \<le> (?d - 1) / ?d"
      using pos by (intro divide_right_mono) simp_all
    also have "\<dots> = ?d / ?d - 1 / ?d"
      by (rule diff_divide_distrib)
    also have "?d / ?d = 1"
      using pos by simp
    finally show ?thesis .
  qed
  ultimately have q1: "tu / ?d \<le> 1 - 1 / 2 ^ 53" by linarith
  show "fl64 (tu / ?d) < 1"
  proof (cases "tu = 0")
    case True
    then show ?thesis by (simp add: fl64_zero)
  next
    case False
    with assms(2) pos have "0 < tu / ?d" by simp
    then have "fl64 (tu / ?d) \<le> 1 - 1 / 2 ^ 53" using q1 by (rule fl64_below_one)
    then show ?thesis by simp
  qed
  show "fl64 (tu / ?d) = 0 \<longleftrightarrow> tu = 0"
  proof
    assume z: "fl64 (tu / ?d) = 0"
    show "tu = 0"
    proof (rule ccontr)
      assume "tu \<noteq> 0"
      with assms(2) pos have "0 < tu / ?d" by simp
      then have "0 < fl64 (tu / ?d)" by (rule fl64_pos)
      with z show False by simp
    qed
  next
    assume "tu = 0"
    then show "fl64 (tu / ?d) = 0" by (simp add: fl64_zero)
  qed
qed

lemma index_cells:
  assumes "set [''age_0_5'', ''age_5_17'', ''demo_age_5_17'', ''demo_age_17_'',
                ''bio_age_5_17'', ''bio_age_17_''] \<subseteq> set (cols df)"
    and "i < length (rows df)"
    and "val (rows df ! i) ''age_0_5'' = Some a" and "val (rows df ! i) ''age_5_17'' = Some b"
    and "val (rows df ! i) ''demo_age_5_17'' = Some d1"
    and "val (rows df ! i) ''demo_age_17_'' = Some d2"
    and "val (rows df ! i) ''bio_age_5_17'' = Some b1"
    and "val (rows df ! i) ''bio_age_17_'' = Some b2"
    and "a + b + (d1 + d2 + b1 + b2) + 1 \<noteq> 0"
  shows "\<exists>df'. index_engine df = Inr df' \<and>
           val (rows df' ! i) ''enrolment_pressure'' = Some (a + b) \<and>
           val (rows df' ! i) ''total_updates'' = Some (d1 + d2 + b1 + b2) \<and>
           val (rows df' ! i) ''DVI'' =
             Some (fl64 ((d1 + d2 + b1 + b2) / (a + b + (d1 + d2 + b1 + b2) + 1)))"
proof -
  from index_engine_total[OF assms(1)] obtain df' where df': "index_engine df = Inr df'" ..
  note iv = index_engine_vals[OF df' assms(2)]
  have "val (rows df' ! i) ''enrolment_pressure'' = Some (a + b)"
    by (simp add: iv(2) assms(3-8) add_na_def)
  moreover have "val (rows df' ! i) ''total_updates'' = Some (d1 + d2 + b1 + b2)"
    by (simp add: iv(3) assms(3-8) add_na_def)
  moreover have "val (rows df' ! i) ''DVI'' =
      Some (fl64 ((d1 + d2 + b1 + b2) / (a + b + (d1 + d2 + b1 + b2) + 1)))"
    using assms(9) by (simp add: iv(4) assms(3-8) add_na_def div_na_def)
  ultimately show ?thesis using df' by blast
qed

section \<open>The claims on the index\<close>

text \<open>
  Claim C2, as the code has it. The table has the six measure columns, and the six
  measures \<open>a, b, d1, d2, b1, b2\<close> of a row are whole numbers not below 0 with
  \<open>a + b + d1 + d2 + b1 + b2 + 1 \<le> 2 ^ 53\<close>. Then the index engine returns a table; in the
  row \<^verbatim>\<open>enrolment_pressure\<close> is \<open>a + b\<close>, \<^verbatim>\<open>total_updates\<close> is \<open>d1 + d2 + b1 + b2\<close> and \<^verbatim>\<open>DVI\<close> is
  the float quotient of \<^verbatim>\<open>total_updates\<close> by \<^verbatim>\<open>enrolment_pressure + total_updates + 1\<close>,
  which is not 0; \<open>0 \<le> DVI < 1\<close>, and \<^verbatim>\<open>DVI\<close> is 0 exactly when \<^verbatim>\<open>total_updates\<close> is 0.
\<close>

theorem dvi_bounded:
  assumes "set [''age_0_5'', ''age_5_17'', ''demo_age_5_17'', ''demo_age_17_'',
                ''bio_age_5_17'', ''bio_age_17_''] \<subseteq> set (cols df)"
    and "i < length (rows df)"
    and "val (rows df ! i) ''age_0_5'' = Some a" and "val (rows df ! i) ''age_5_17'' = Some b"
    and "val (rows df ! i) ''demo_age_5_17'' = Some d1"
    and "val (rows df ! i) ''demo_age_17_'' = Some d2"
    and "val (rows df ! i) ''bio_age_5_17'' = Some b1"
    and "val (rows df ! i) ''bio_age_17_'' = Some b2"
    and "list_all (\<lambda>v. 0 \<le> v \<and> of_int \<lfloor>v\<rfloor> = v) [a, b, d1, d2, b1, b2]"
    and "a + b + (d1 + d2 + b1 + b2) + 1 \<le> 2 ^ 53"
  shows "\<exists>df' dvi.
           index_engine df = Inr df' \<and>
           val (rows df' ! i) ''enrolment_pressure'' = Some (a + b) \<and>
           val (rows df' ! i) ''total_updates'' = Some (d1 + d2 + b1 + b2) \<and>
           val (rows df' ! i) ''DVI'' = Some dvi \<and>
           a + b + (d1 + d2 + b1 + b2) + 1 \<noteq> 0 \<and>
           dvi = fl64 ((d1 + d2 + b1 + b2) / (a + b + (d1 + d2 + b1 + b2) + 1)) \<and>
           0 \<le> dvi \<and> dvi < 1 \<and> (dvi = 0 \<longleftrightarrow> d1 + d2 + b1 + b2 = 0)"
proof -
  from assms(9) have ep: "0 \<le> a + b" and tu: "0 \<le> d1 + d2 + b1 + b2"
    by simp_all
  note fl = dvi_float[OF ep tu assms(10)]
  from index_cells[OF assms(1-8) fl(1)] fl show ?thesis
    by blast
qed

text \<open>
  The statement at the master table of the enrolment record and the two update
  records of its key: 95 updates on an enrolment pressure of 15.
\<close>

theorem dvi_bounded_witness:
  "\<exists>df' dvi. index_engine (master parse_month enrol_A demo_B bio_B) = Inr df' \<and>
         val (rows df' ! 0) ''total_updates'' = Some 95 \<and>
         val (rows df' ! 0) ''DVI'' = Some dvi \<and> dvi = fl64 (95 / 111) \<and>
         0 \<le> dvi \<and> dvi < 1 \<and> dvi \<noteq> 0"
proof -
  let ?df = "master parse_month enrol_A demo_B bio_B"
  have 1: "set [''age_0_5'', ''age_5_17'', ''demo_age_5_17'', ''demo_age_17_'',
             ''bio_age_5_17'', ''bio_age_17_''] \<subseteq> set (cols ?df)"
    by code_simp
  have 2: "0 < length (rows ?df)" by code_simp
  have v: "val (rows ?df ! 0) ''age_0_5'' = Some 10" "val (rows ?df ! 0) ''age_5_17'' = Some 5"
    "val (rows ?df ! 0) ''demo_age_5_17'' = Some 0" "val (rows ?df ! 0) ''demo_age_17_'' = Some 90"
    "val (rows ?df ! 0) ''bio_age_5_17'' = Some 5" "val (rows ?df ! 0) ''bio_age_17_'' = Some 0"
    by code_simp+
  have 3: "list_all (\<lambda>v. 0 \<le> v \<and> of_int \<lfloor>v\<rfloor> = v) [10, 5, 0, 90, 5, 0 :: rat]"
    by simp
  have 4: "10 + 5 + (0 + 90 + 5 + 0) + 1 \<le> (2 ^ 53 :: rat)"
    by simp
  from dvi_bounded[OF 1 2 v 3 4] show ?thesis
    by (auto simp add: )
qed

text \<open>
  Claim C2 as written fails beyond the whole numbers that floats hold: with no
  enrolment and \<open>10 ^ 17\<close> updates the denominator rounds to \<open>10 ^ 17\<close> and \<^verbatim>\<open>DVI\<close> is 1.
\<close>

theorem dvi_one_at_huge_count:
  "pipeline parse_month enrol_zero demo_huge bio_none =
     Inr (\<lparr>cols = [''age_0_5'', ''age_5_17'', ''demo_age_5_17'', ''demo_age_17_'',
                   ''bio_age_5_17'', ''bio_age_17_'', ''enrolment_pressure'',
                   ''total_updates'', ''DVI''],
           rows =
             [\<lparr>date = Ts jan_2024, state = Str ''KA'', district = Str ''Bengaluru'',
               pincode = Num 560001,
               vals = [(''age_0_5'', Some 0), (''age_5_17'', Some 0),
                       (''demo_age_5_17'', Some 0), (''demo_age_17_'', Some (10 ^ 17)),
                       (''bio_age_5_17'', Some 0), (''bio_age_17_'', Some 0),
                       (''enrolment_pressure'', Some 0), (''total_updates'', Some (10 ^ 17)),
                       (''DVI'', Some 1)]\<rparr>]\<rparr>,
          [])"
  by code_simp

lemma fl64_95_111: "fl64 (95 / 111) = 7708864227030579 / 9007199254740992"
  by code_simp

text \<open>
  Claim C8. The table has the six measure columns, and the six measures
  \<open>a, b, d1, d2, b1, b2\<close> of a row are whole numbers not below 0 with
  \<open>a + b + d1 + d2 + b1 + b2 + 1 \<le> 2 ^ 53\<close>. Then the index engine computes for the row
  \<^verbatim>\<open>enrolment_pressure = age_0_5 + age_5_17\<close>,
  \<^verbatim>\<open>total_updates = demo_age_5_17 + demo_age_17_ + bio_age_5_17 + bio_age_17_\<close> and \<^verbatim>\<open>DVI\<close>, the
  float quotient of \<^verbatim>\<open>total_updates\<close> by \<^verbatim>\<open>enrolment_pressure + total_updates + 1\<close>. With the
  measures 10, 5, 0, 90, 5 and 0 these are 15, 95 and the float nearest to 95/111,
  which is within \<open>2 ^ - 53\<close> of it and is 0.8559 to four places. The column the
  specification calls \<^verbatim>\<open>demo_age_17_plus\<close> is \<^verbatim>\<open>demo_age_17_\<close> in the script, and
  \<^verbatim>\<open>bio_age_17_plus\<close> is \<^verbatim>\<open>bio_age_17_\<close>.
\<close>

theorem scenario_B_values:
  assumes "set [''age_0_5'', ''age_5_17'', ''demo_age_5_17'', ''demo_age_17_'',
                ''bio_age_5_17'', ''bio_age_17_''] \<subseteq> set (cols df)"
    and "i < length (rows df)"
    and "val (rows df ! i) ''age_0_5'' = Some a" and "val (rows df ! i) ''age_5_17'' = Some b"
    and "val (rows df ! i) ''demo_age_5_17'' = Some d1"
    and "val (rows df ! i) ''demo_age_17_'' = Some d2"
    and "val (rows df ! i) ''bio_age_5_17'' = Some b1"
    and "val (rows df ! i) ''bio_age_17_'' = Some b2"
    and "list_all (\<lambda>v. 0 \<le> v \<and> of_int \<lfloor>v\<rfloor> = v) [a, b, d1, d2, b1, b2]"
    and "a + b + (d1 + d2 + b1 + b2) + 1 \<le> 2 ^ 53"
  shows "\<exists>df' ep tu dvi.
           index_engine df = Inr df' \<and>
           val (rows df' ! i) ''enrolment_pressure'' = Some ep \<and> ep = a + b \<and>
           val (rows df' ! i) ''total_updates'' = Some tu \<and> tu = d1 + d2 + b1 + b2 \<and>
           val (rows df' ! i) ''DVI'' = Some dvi \<and> dvi = fl64 (tu / (ep + tu + 1)) \<and>
           (a = 10 \<and> b = 5 \<and> d1 = 0 \<and> d2 = 90 \<and> b1 = 5 \<and> b2 = 0 \<longrightarrow>
              ep = 15 \<and> tu = 95 \<and> dvi = fl64 (95 / 111) \<and>
              \<bar>dvi - 95 / 111\<bar> \<le> 1 / 2 ^ 53 \<and> \<bar>dvi - 8559 / 10000\<bar> < 1 / 10000)"
proof -
  from assms(9) have ep: "0 \<le> a + b" and tu: "0 \<le> d1 + d2 + b1 + b2"
    by simp_all
  note fl = dvi_float[OF ep tu assms(10)]
  from index_cells[OF assms(1-8) fl(1)] obtain df' where
    c: "index_engine df = Inr df'"
      "val (rows df' ! i) ''enrolment_pressure'' = Some (a + b)"
      "val (rows df' ! i) ''total_updates'' = Some (d1 + d2 + b1 + b2)"
      "val (rows df' ! i) ''DVI'' =
         Some (fl64 ((d1 + d2 + b1 + b2) / (a + b + (d1 + d2 + b1 + b2) + 1)))"
    by blast
  have "a = 10 \<and> b = 5 \<and> d1 = 0 \<and> d2 = 90 \<and> b1 = 5 \<and> b2 = 0 \<longrightarrow>
      a + b = 15 \<and> d1 + d2 + b1 + b2 = 95 \<and>
      fl64 ((d1 + d2 + b1 + b2) / (a + b + (d1 + d2 + b1 + b2) + 1)) = fl64 (95 / 111) \<and>
      \<bar>fl64 ((d1 + d2 + b1 + b2) / (a + b + (d1 + d2 + b1 + b2) + 1)) - 95 / 111\<bar> \<le> 1 / 2 ^ 53 \<and>
      \<bar>fl64 ((d1 + d2 + b1 + b2) / (a + b + (d1 + d2 + b1 + b2) + 1)) - 8559 / 10000\<bar> < 1 / 10000"
    by (auto simp add: fl64_95_111)
  with c show ?thesis by blast
qed

text \<open>
  The statement at the master table of the enrolment record and the two update
  records of its key.
\<close>

theorem scenario_B_values_witness:
  "\<exists>df'. index_engine (master parse_month enrol_A demo_B bio_B) = Inr df' \<and>
         val (rows df' ! 0) ''enrolment_pressure'' = Some 15 \<and>
         val (rows df' ! 0) ''total_updates'' = Some 95 \<and>
         val (rows df' ! 0) ''DVI'' = Some (fl64 (95 / 111))"
proof -
  let ?df = "master parse_month enrol_A demo_B bio_B"
  have 1: "set [''age_0_5'', ''age_5_17'', ''demo_age_5_17'', ''demo_age_17_'',
             ''bio_age_5_17'', ''bio_age_17_''] \<subseteq> set (cols ?df)"
    by code_simp
  have 2: "0 < length (rows ?df)" by code_simp
  have v: "val (rows ?df ! 0) ''age_0_5'' = Some 10" "val (rows ?df ! 0) ''age_5_17'' = Some 5"
    "val (rows ?df ! 0) ''demo_age_5_17'' = Some 0" "val (rows ?df ! 0) ''demo_age_17_'' = Some 90"
    "val (rows ?df ! 0) ''bio_age_5_17'' = Some 5" "val (rows ?df ! 0) ''bio_age_17_'' = Some 0"
    by code_simp+
  have 3: "list_all (\<lambda>v. 0 \<le> v \<and> of_int \<lfloor>v\<rfloor> = v) [10, 5, 0, 90, 5, 0 :: rat]"
    by simp
  have 4: "10 + 5 + (0 + 90 + 5 + 0) + 1 \<le> (2 ^ 53 :: rat)"
    by simp
  from scenario_B_values[OF 1 2 v 3 4] show ?thesis
    by auto
qed

section \<open>The claim on the cleaning\<close>

lemma lstrip_split: "\<exists>pre. set pre \<subseteq> set ws \<and> s = concat pre @ lstrip ws s"
proof (induction ws s rule: lstrip.induct)
  case (1 ws s)
  show ?case
  proof (cases "filter (starts s) ws")
    case Nil
    then have "lstrip ws s = s" by (subst lstrip.simps) simp
    then have "set [] \<subseteq> set ws \<and> s = concat [] @ lstrip ws s" by simp
    then show ?thesis by blast
  next
    case (Cons w rest)
    then have l: "lstrip ws s = lstrip ws (drop (length w) s)" by (subst lstrip.simps) simp
    from Cons have "w \<in> set (filter (starts s) ws)" by simp
    then have w: "w \<in> set ws" and "starts s w" by simp_all
    then have t: "take (length w) s = w" by (simp add: starts_def)
    from "1.IH"[OF Cons] obtain pre where
      pre: "set pre \<subseteq> set ws" "drop (length w) s = concat pre @ lstrip ws (drop (length w) s)"
      by blast
    have "s = take (length w) s @ drop (length w) s" by simp
    also have "\<dots> = w @ concat pre @ lstrip ws s" using pre(2) by (simp only: t l)
    finally have "s = concat (w # pre) @ lstrip ws s" by simp
    moreover have "set (w # pre) \<subseteq> set ws" using w pre(1) by simp
    ultimately show ?thesis by blast
  qed
qed

lemma lstrip_done: "w \<in> set ws \<Longrightarrow> \<not> starts (lstrip ws s) w"
proof (induction ws s rule: lstrip.induct)
  case (1 ws s)
  show ?case
  proof (cases "filter (starts s) ws")
    case Nil
    then have "lstrip ws s = s" by (subst lstrip.simps) simp
    moreover from Nil "1.prems" have "\<not> starts s w" by (simp add: filter_empty_conv)
    ultimately show ?thesis by simp
  next
    case (Cons v rest)
    then have "lstrip ws s = lstrip ws (drop (length v) s)" by (subst lstrip.simps) simp
    with "1.IH"[OF Cons "1.prems"] show ?thesis by simp
  qed
qed

lemma strip_split:
  "\<exists>pre post. set pre \<subseteq> set space_seqs \<and> set post \<subseteq> set space_seqs \<and>
      s = concat pre @ strip s @ concat post"
proof -
  let ?t = "lstrip space_seqs s"
  obtain pre where pre: "set pre \<subseteq> set space_seqs" "s = concat pre @ ?t"
    using lstrip_split by blast
  obtain q where q: "set q \<subseteq> set (map rev space_seqs)"
      "rev ?t = concat q @ lstrip (map rev space_seqs) (rev ?t)"
    using lstrip_split by blast
  have "rev (rev ?t) = rev (concat q @ lstrip (map rev space_seqs) (rev ?t))"
    using q(2) by (rule arg_cong)
  then have "?t = strip s @ rev (concat q)"
    by (simp add: strip_def)
  also have "rev (concat q) = concat (map rev (rev q))"
    by (simp add: rev_concat)
  finally have t: "?t = strip s @ concat (map rev (rev q))" .
  have "set (map rev (rev q)) \<subseteq> set space_seqs"
    using q(1) by auto
  moreover have "s = concat pre @ strip s @ concat (map rev (rev q))"
    using pre(2) t by simp
  ultimately show ?thesis using pre(1) by blast
qed


lemma strip_ends:
  assumes "w \<in> set space_seqs"
  shows "\<not> starts (strip s) w" and "\<not> starts (rev (strip s)) (rev w)"
proof -
  let ?t = "lstrip space_seqs s"
  have "rev w \<in> set (map rev space_seqs)" using assms by simp
  then have "\<not> starts (lstrip (map rev space_seqs) (rev ?t)) (rev w)"
    by (rule lstrip_done)
  then show "\<not> starts (rev (strip s)) (rev w)" by (simp add: strip_def)
  obtain q where "rev ?t = q @ lstrip (map rev space_seqs) (rev ?t)"
    using lstrip_split by blast
  then have "rev (rev ?t) = rev (q @ lstrip (map rev space_seqs) (rev ?t))"
    by (rule arg_cong)
  then have t: "?t = strip s @ rev q" by (simp add: strip_def)
  show "\<not> starts (strip s) w"
  proof
    assume "starts (strip s) w"
    then have w: "w \<noteq> []" and tk: "take (length w) (strip s) = w"
      by (simp_all add: starts_def)
    have "length (take (length w) (strip s)) = length w"
      by (simp only: tk)
    then have "length w \<le> length (strip s)"
      by simp
    then have "take (length w) ?t = take (length w) (strip s)"
      by (subst t) simp
    with w tk have "starts ?t w" by (simp add: starts_def)
    with lstrip_done[OF assms] show False by blast
  qed
qed

lemma replace_district_aliases:
  "replace district_aliases (Str s) =
     Str (if s = ''Bangalore Urban'' \<or> s = ''Bengaluru Urban'' then ''Bengaluru'' else s)"
  by (simp add: replace_def district_aliases_def)

lemma rows_cleaned:
  "rows (cleaned df) =
     map (\<lambda>r. r\<lparr>district := replace district_aliases (str_strip (district r))\<rparr>) (rows df)"
  by (simp add: cleaned_def)

lemma cols_cleaned: "cols (cleaned df) = cols df"
  by (simp add: cleaned_def)

lemma text_column_member: "c \<in> set cs \<Longrightarrow> is_text c \<Longrightarrow> text_column cs"
  by (auto simp add: text_column_def list_ex_iff)

text \<open>
  Claim C9. For a record whose district is a text \<open>s\<close>, \<^verbatim>\<open>clean_district\<close> raises nothing
  and keeps the columns, the rows and every other cell of the table. The text is
  first trimmed: \<open>strip s\<close> is \<open>s\<close> without a run of white space characters at its start
  and one at its end, and neither begins nor ends with a white space character. The
  trimmed name is then mapped: \<^verbatim>\<open>Bangalore Urban\<close> and \<^verbatim>\<open>Bengaluru Urban\<close> become
  \<^verbatim>\<open>Bengaluru\<close>, and every other name stays as trimmed.
\<close>

theorem clean_district_trims_and_maps:
  assumes "i < length (rows df)" and "district (rows df ! i) = Str s"
  shows "\<exists>df'. clean_district df = Inr df' \<and> cols df' = cols df \<and>
           length (rows df') = length (rows df) \<and>
           (\<forall>j < length (rows df).
              date (rows df' ! j) = date (rows df ! j) \<and>
              state (rows df' ! j) = state (rows df ! j) \<and>
              pincode (rows df' ! j) = pincode (rows df ! j) \<and>
              vals (rows df' ! j) = vals (rows df ! j)) \<and>
           (\<exists>pre post. set pre \<subseteq> set space_seqs \<and> set post \<subseteq> set space_seqs \<and>
              s = concat pre @ strip s @ concat post) \<and>
           (\<forall>w \<in> set space_seqs. \<not> starts (strip s) w \<and> \<not> starts (rev (strip s)) (rev w)) \<and>
           district (rows df' ! i) =
             Str (if strip s = ''Bangalore Urban'' \<or> strip s = ''Bengaluru Urban''
                  then ''Bengaluru'' else strip s)"
proof -
  have "district (rows df ! i) \<in> set (map district (rows df))"
    using assms(1) by simp
  then have "text_column (map district (rows df))"
    by (rule text_column_member) (simp add: assms(2) is_text_def)
  then have "clean_district df = Inr (cleaned df)"
    by (simp add: clean_district_def)
  moreover have "district (rows (cleaned df) ! i) =
      Str (if strip s = ''Bangalore Urban'' \<or> strip s = ''Bengaluru Urban''
           then ''Bengaluru'' else strip s)"
    using assms by (simp add: rows_cleaned str_strip_def replace_district_aliases)
  moreover have "\<forall>j < length (rows df).
      date (rows (cleaned df) ! j) = date (rows df ! j) \<and>
      state (rows (cleaned df) ! j) = state (rows df ! j) \<and>
      pincode (rows (cleaned df) ! j) = pincode (rows df ! j) \<and>
      vals (rows (cleaned df) ! j) = vals (rows df ! j)"
    by (simp add: rows_cleaned)
  moreover have "length (rows (cleaned df)) = length (rows df)"
    by (simp add: rows_cleaned)
  ultimately show ?thesis
    using strip_split[of s] strip_ends[of _ s] cols_cleaned[of df] by blast
qed

text \<open>
  The statement at an alias spelling with white space around it, a no-break space and
  an em space included, and at an unlisted name.
\<close>

theorem clean_district_trims_and_maps_witness:
  "\<exists>df'. clean_district spaced_names = Inr df' \<and>
         district (rows df' ! 0) = Str ''Bengaluru'' \<and>
         district (rows df' ! 1) = Str ''Mysuru''"
proof -
  have 0: "0 < length (rows spaced_names)" and 1: "1 < length (rows spaced_names)"
    by (simp_all add: spaced_names_def)
  have d0: "district (rows spaced_names ! 0)
      = Str ([CHR 0xC2, CHR 0xA0] @ '' Bangalore Urban'' @ [CHR 0xE2, CHR 0x80, CHR 0x83, CHR 0x0A])"
    and d1: "district (rows spaced_names ! 1) = Str ''Mysuru''"
    by (simp_all add: spaced_names_def)
  have s0: "strip ([CHR 0xC2, CHR 0xA0] @ '' Bangalore Urban'' @ [CHR 0xE2, CHR 0x80, CHR 0x83, CHR 0x0A])
      = ''Bangalore Urban''"
    and s1: "strip ''Mysuru'' = ''Mysuru''"
    by code_simp+
  from clean_district_trims_and_maps[OF 0 d0] obtain df' where
    a: "clean_district spaced_names = Inr df'" "district (rows df' ! 0) = Str ''Bengaluru''"
    unfolding s0 by auto
  from clean_district_trims_and_maps[OF 1 d1] a(1) have "district (rows df' ! 1) = Str ''Mysuru''"
    unfolding s1 by auto
  with a show ?thesis by blast
qed

section \<open>The claim on the zero fill\<close>





end
